theory Spec2Isabelle
  imports Main "HOL-Library.AList"
begin

section \<open>The resource store of the time tracker\<close>

text \<open>
  The module \<^verbatim>\<open>src/store\<close> keeps one object graph in memory and mirrors it in the file
  \<^verbatim>\<open>db.json\<close>. Its functions are \<^verbatim>\<open>loadGraph\<close>, \<^verbatim>\<open>find\<close>, \<^verbatim>\<open>save\<close>, \<^verbatim>\<open>delete\<close>,
  \<^verbatim>\<open>loadDB\<close>, \<^verbatim>\<open>persistGraph\<close> and \<^verbatim>\<open>generateUniqueID\<close>. Each of them is embedded below
  as a function on an explicit world state: the file, the closure variable of
  \<^verbatim>\<open>loadGraph\<close> (which also holds the graph object everybody mutates), and two counters
  for the calls of \<^verbatim>\<open>fs.readFile\<close> and \<^verbatim>\<open>fs.writeFile\<close>.
\<close>

subsection \<open>Data\<close>

text \<open>
  A resource is an object with the fields \<^verbatim>\<open>type\<close> and \<^verbatim>\<open>id\<close> the store looks at; the
  rest of the object is opaque. \<open>None\<close> stands for a field that is \<^verbatim>\<open>null\<close> or
  \<^verbatim>\<open>undefined\<close> (the source tests both with \<^verbatim>\<open>== null\<close>). Ids are the non-negative
  integers of the data model.
\<close>

record 'f resource =
  res_type :: "string option"
  res_id :: "nat option"
  res_data :: 'f

text \<open>
  A JavaScript object is a list of own properties in insertion order: reading a
  property is \<^const>\<open>map_of\<close>, the assignment \<^verbatim>\<open>o[k] = v\<close> is \<^const>\<open>AList.update\<close>
  (an existing property keeps its place, a new one goes to the end), and
  \<^verbatim>\<open>delete o[k]\<close> is \<^const>\<open>AList.delete\<close>. The list holds the own properties; what
  an object inherits from \<^verbatim>\<open>Object.prototype\<close> is \<open>Object_prototype_names\<close> below.
\<close>

type_synonym 'f partition = "(nat \<times> 'f resource) list"

type_synonym 'f graph = "(string \<times> 'f partition) list"

text \<open>
  \<^verbatim>\<open>Object.keys\<close> lists the keys that are array indices (the integers below
  \<open>2\<^sup>3\<^sup>2 - 1\<close>) first, in ascending numeric order whatever the order of insertion, and
  the other keys after them in the order of insertion.
\<close>

definition array_index :: "nat \<Rightarrow> bool" where
  "array_index k = (k < 2 ^ 32 - 1)"

definition Object_keys :: "'f partition \<Rightarrow> nat list" where
  "Object_keys part =
     sort (filter array_index (map fst part)) @ filter (\<lambda>k. \<not> array_index k) (map fst part)"

text \<open>
  Numbers are doubles. Every natural number up to \<open>2\<^sup>5\<^sup>3\<close> is one; a greater one is
  rounded to the nearest number with a significand of 53 bits, a tie going to the even
  significand. \<open>spare_bits n\<close> is the number of low bits of \<open>n\<close> beyond the 53. (A numeral
  of \<open>2\<^sup>1\<^sup>0\<^sup>2\<^sup>4\<close> or more, which the code reads as \<^verbatim>\<open>Infinity\<close>, is beyond what is
  modelled.)
\<close>

fun spare_bits :: "nat \<Rightarrow> nat" where
  "spare_bits n = (if n < 2 ^ 53 then 0 else Suc (spare_bits (n div 2)))"

definition to_double :: "nat \<Rightarrow> nat" where
  "to_double n =
     (let e = spare_bits n; q = n div 2 ^ e; r = n mod 2 ^ e
      in if 2 * r < 2 ^ e \<or> (2 * r = 2 ^ e \<and> even q) then q * 2 ^ e else (q + 1) * 2 ^ e)"

text \<open>
  \<^verbatim>\<open>Math.max(0, ...keys)\<close>: each key is read as a number. (The keys are spread as
  arguments of the call; the limit an engine puts on their number is not modelled.)
\<close>

definition Math_max0 :: "nat list \<Rightarrow> nat" where
  "Math_max0 keys = fold max (map to_double keys) 0"

text \<open>\<^verbatim>\<open>m + 1\<close> for a number \<open>m\<close>: the sum, as a double.\<close>

definition plus_one :: "nat \<Rightarrow> nat" where
  "plus_one m = to_double (m + 1)"

text \<open>
  The graph and its partitions are plain objects, so reading a property that is not
  their own falls back on \<^verbatim>\<open>Object.prototype\<close>. Under the names below \<^verbatim>\<open>graph[type]\<close> is
  never \<^verbatim>\<open>undefined\<close>: it is a built-in function, or the prototype itself for
  \<^verbatim>\<open>__proto__\<close>. As the process starts these built-ins have no enumerable property and
  no property with a numeric name, and so they are taken here: the world keeps no
  state for them, and what a \<^verbatim>\<open>save\<close> under such a name puts into a built-in is not
  followed.
\<close>

definition Object_prototype_names :: "string list" where
  "Object_prototype_names =
     [''constructor'', ''__defineGetter__'', ''__defineSetter__'', ''hasOwnProperty'',
      ''__lookupGetter__'', ''__lookupSetter__'', ''isPrototypeOf'', ''propertyIsEnumerable'',
      ''toString'', ''valueOf'', ''__proto__'', ''toLocaleString'']"

text \<open>\<^verbatim>\<open>graph[type][id]\<close>, read where the source has checked that \<^verbatim>\<open>graph[type]\<close> exists.\<close>

definition graph_get :: "'f graph \<Rightarrow> string \<Rightarrow> nat \<Rightarrow> 'f resource option" where
  "graph_get graph t i = (case map_of graph t of None \<Rightarrow> None | Some part \<Rightarrow> map_of part i)"

text \<open>
  \<^verbatim>\<open>graph[type][id] = resource\<close>: the partition object is changed in place, so it keeps
  its position in the graph. Where \<^verbatim>\<open>graph[type]\<close> is not a partition of the graph but a
  built-in, the graph is left as it is. The graph holds the resource as it is at the
  assignment; what a caller does to its object afterwards is not followed.
\<close>

definition graph_put :: "'f graph \<Rightarrow> string \<Rightarrow> nat \<Rightarrow> 'f resource \<Rightarrow> 'f graph" where
  "graph_put graph t i r =
     (case map_of graph t of
        None \<Rightarrow> graph
      | Some part \<Rightarrow> AList.update t (AList.update i r part) graph)"

text \<open>\<^verbatim>\<open>delete graph[type][id]\<close>.\<close>

definition graph_remove :: "'f graph \<Rightarrow> string \<Rightarrow> nat \<Rightarrow> 'f graph" where
  "graph_remove graph t i =
     (case map_of graph t of
        None \<Rightarrow> graph
      | Some part \<Rightarrow> AList.update t (AList.delete i part) graph)"

text \<open>
  A file-system error carries its \<^verbatim>\<open>code\<close>. The errors of the store are the two it
  throws itself and the file-system errors it passes on.
\<close>

datatype fs_error = FsError (code: string)

datatype error = MissingType | UnrecognizedType | IOFailure fs_error

text \<open>
  What awaiting a promise gives: its value, its rejection, or nothing because the
  promise is never settled.
\<close>

datatype ('e, 'a) promise = Resolved 'a | Rejected 'e | Unsettled

text \<open>
  \<^verbatim>\<open>JSON.stringify\<close> and \<^verbatim>\<open>JSON.parse\<close> belong to the language, not to the repository;
  they are parameters. \<open>parse\<close> gives \<open>None\<close> where \<^verbatim>\<open>JSON.parse\<close> throws.
\<close>

record ('c, 'f) json =
  stringify :: "'f graph \<Rightarrow> 'c"
  parse :: "'c \<Rightarrow> 'f graph option"

text \<open>
  The world: the content of \<^verbatim>\<open>db.json\<close> (\<open>None\<close> when the file does not exist), the
  error the file system answers the next read or write with (\<open>None\<close> when it works),
  the variable \<^verbatim>\<open>promise\<close> of \<^verbatim>\<open>loadGraph\<close> (\<open>None\<close> for \<^verbatim>\<open>null\<close>), and the number of
  reads and writes issued so far. The graph the promise is resolved with is the one
  object that \<^verbatim>\<open>save\<close> and \<^verbatim>\<open>delete\<close> mutate, so a mutation replaces the graph held in
  \<open>promise\<close>.
\<close>

record ('c, 'f) world =
  content :: "'c option"
  read_fault :: "fs_error option"
  write_fault :: "fs_error option"
  promise :: "(fs_error, 'f graph) promise option"
  reads :: nat
  writes :: nat

subsection \<open>The file system\<close>

text \<open>
  \<^verbatim>\<open>fs.readFile\<close> and \<^verbatim>\<open>fs.writeFile\<close> as the store sees them through their callbacks.
  A read answers with the fault of the disk if there is one, with an error of code
  \<^verbatim>\<open>ENOENT\<close> if the file does not exist, and with the content otherwise. A write
  answers with the fault of the disk, leaving the file as it is, or replaces the
  content. Both are counted.
\<close>

definition fs_readFile :: "('c, 'f) world \<Rightarrow> (fs_error + 'c) \<times> ('c, 'f) world" where
  "fs_readFile w =
     (let w' = w\<lparr>reads := reads w + 1\<rparr> in
      case read_fault w of
        Some e \<Rightarrow> (Inl e, w')
      | None \<Rightarrow>
          (case content w of
             None \<Rightarrow> (Inl (FsError ''ENOENT''), w')
           | Some c \<Rightarrow> (Inr c, w')))"

definition fs_writeFile :: "'c \<Rightarrow> ('c, 'f) world \<Rightarrow> fs_error option \<times> ('c, 'f) world" where
  "fs_writeFile c w =
     (let w' = w\<lparr>writes := writes w + 1\<rparr> in
      case write_fault w of
        Some e \<Rightarrow> (Some e, w')
      | None \<Rightarrow> (None, w'\<lparr>content := Some c\<rparr>))"

subsection \<open>Loading and persisting\<close>

definition persistGraph ::
  "('c, 'f) json \<Rightarrow> 'f graph \<Rightarrow> ('c, 'f) world \<Rightarrow> (fs_error, 'f graph) promise \<times> ('c, 'f) world" where
  "persistGraph J payload w =
     (case fs_writeFile (stringify J payload) w of
        (Some err, w') \<Rightarrow> (Rejected err, w')
      | (None, w') \<Rightarrow> (Resolved payload, w'))"

text \<open>
  The callback of \<^verbatim>\<open>loadDB\<close> is an \<^verbatim>\<open>async\<close> function: when \<^verbatim>\<open>persistGraph({})\<close> rejects
  or \<^verbatim>\<open>JSON.parse\<close> throws inside it, the exception ends the callback and neither
  \<^verbatim>\<open>resolve\<close> nor \<^verbatim>\<open>reject\<close> is called, so the promise of \<^verbatim>\<open>loadDB\<close> stays unsettled.
\<close>

definition loadDB ::
  "('c, 'f) json \<Rightarrow> ('c, 'f) world \<Rightarrow> (fs_error, 'f graph) promise \<times> ('c, 'f) world" where
  "loadDB J w =
     (case fs_readFile w of
        (Inl err, w1) \<Rightarrow>
          if code err \<noteq> ''ENOENT'' then (Rejected err, w1)
          else (case persistGraph J [] w1 of
                  (Resolved g, w2) \<Rightarrow> (Resolved g, w2)
                | (Rejected e, w2) \<Rightarrow> (Unsettled, w2)
                | (Unsettled, w2) \<Rightarrow> (Unsettled, w2))
      | (Inr c, w1) \<Rightarrow>
          (case parse J c of
             Some g \<Rightarrow> (Resolved g, w1)
           | None \<Rightarrow> (Unsettled, w1)))"

definition loadGraph ::
  "('c, 'f) json \<Rightarrow> ('c, 'f) world \<Rightarrow> (fs_error, 'f graph) promise \<times> ('c, 'f) world" where
  "loadGraph J w =
     (case promise w of
        None \<Rightarrow> (case loadDB J w of (p, w') \<Rightarrow> (p, w'\<lparr>promise := Some p\<rparr>))
      | Some p \<Rightarrow> (p, w))"

definition generateUniqueID ::
  "('c, 'f) json \<Rightarrow> string \<Rightarrow> ('c, 'f) world \<Rightarrow> (error, nat) promise \<times> ('c, 'f) world" where
  "generateUniqueID J t w =
     (case loadGraph J w of
        (Rejected e, w') \<Rightarrow> (Rejected (IOFailure e), w')
      | (Unsettled, w') \<Rightarrow> (Unsettled, w')
      | (Resolved graph, w') \<Rightarrow>
          (case map_of graph t of
             None \<Rightarrow>
               if t \<in> set Object_prototype_names then (Resolved (plus_one (Math_max0 [])), w')
               else (Resolved 0, w')
           | Some part \<Rightarrow> (Resolved (plus_one (Math_max0 (Object_keys part))), w')))"

subsection \<open>The operations of the module\<close>

text \<open>
  \<^verbatim>\<open>find\<close> resolves with one resource (\<open>None\<close> for \<^verbatim>\<open>undefined\<close>) when an id is given and
  with the array of the partition's resources otherwise. Under a name of
  \<open>Object_prototype_names\<close> that is no property of the graph itself the test of line 140
  finds the built-in, and \<^verbatim>\<open>find\<close> goes on with it: it has no property under the id and no
  keys to list.
\<close>

datatype 'f found = One "'f resource option" | Many "'f resource list"

definition find_store ::
  "('c, 'f) json \<Rightarrow> string \<Rightarrow> nat option \<Rightarrow> ('c, 'f) world \<Rightarrow>
     (error, 'f found) promise \<times> ('c, 'f) world" where
  "find_store J t i w =
     (case loadGraph J w of
        (Rejected e, w') \<Rightarrow> (Rejected (IOFailure e), w')
      | (Unsettled, w') \<Rightarrow> (Unsettled, w')
      | (Resolved graph, w') \<Rightarrow>
          (case map_of graph t of
             None \<Rightarrow>
               if t \<in> set Object_prototype_names
               then (case i of
                       Some k \<Rightarrow> (Resolved (One None), w')
                     | None \<Rightarrow> (Resolved (Many []), w'))
               else (Rejected UnrecognizedType, w')
           | Some part \<Rightarrow>
               (case i of
                  Some k \<Rightarrow> (Resolved (One (map_of part k)), w')
                | None \<Rightarrow>
                    (Resolved (Many (List.map_filter (map_of part) (Object_keys part))), w'))))"

text \<open>
  \<^verbatim>\<open>save\<close> returns its promise, the caller's resource object as the call leaves it
  (its \<^verbatim>\<open>id\<close> is assigned), and the world. Under a name of \<open>Object_prototype_names\<close> that
  is no property of the graph itself the test of line 178 finds the built-in and no
  partition is created; the built-in has no property under the id, so an id is
  generated; the assignment of line 197 puts the resource into the built-in and leaves
  the graph as it is, and the graph is persisted.
\<close>

definition save ::
  "('c, 'f) json \<Rightarrow> 'f resource \<Rightarrow> ('c, 'f) world \<Rightarrow>
     (error, 'f graph) promise \<times> 'f resource \<times> ('c, 'f) world" where
  "save J resource w =
     (case res_type resource of
        None \<Rightarrow> (Rejected MissingType, resource, w)
      | Some t \<Rightarrow>
          (case loadGraph J w of
             (Rejected e, w1) \<Rightarrow> (Rejected (IOFailure e), resource, w1)
           | (Unsettled, w1) \<Rightarrow> (Unsettled, resource, w1)
           | (Resolved graph0, w1) \<Rightarrow>
               (let graph1 =
                      (if map_of graph0 t = None \<and> t \<notin> set Object_prototype_names
                       then AList.update t [] graph0 else graph0);
                    w2 = w1\<lparr>promise := Some (Resolved graph1)\<rparr>;
                    (newID, w3) =
                      (case res_id resource of
                         None \<Rightarrow> generateUniqueID J t w2
                       | Some i \<Rightarrow>
                           if graph_get graph1 t i = None then generateUniqueID J t w2
                           else (Resolved i, w2))
                in case newID of
                     Rejected e \<Rightarrow> (Rejected e, resource, w3)
                   | Unsettled \<Rightarrow> (Unsettled, resource, w3)
                   | Resolved resourceID \<Rightarrow>
                       (let resource' = resource\<lparr>res_id := Some resourceID\<rparr>;
                            graph2 = graph_put graph1 t resourceID resource';
                            w4 = w3\<lparr>promise := Some (Resolved graph2)\<rparr>
                        in case persistGraph J graph2 w4 of
                             (Resolved g, w5) \<Rightarrow> (Resolved g, resource', w5)
                           | (Rejected e, w5) \<Rightarrow> (Rejected (IOFailure e), resource', w5)
                           | (Unsettled, w5) \<Rightarrow> (Unsettled, resource', w5)))))"

text \<open>
  \<^verbatim>\<open>save\<close> is suspended at its \<^verbatim>\<open>await\<close>s, the last of them at line 190, where it waits
  for the id. When calls overlap, what a \<^verbatim>\<open>save\<close> does up to the id (lines 166 to 191,
  \<open>save_begin\<close>) and what it does with the id (lines 193 to 200, \<open>save_end\<close>) are run
  apart: the id is computed inside \<^verbatim>\<open>generateUniqueID\<close>, and the caller is resumed with it
  in a later turn of the job queue, after the jobs that are queued already. \<open>save_end\<close>
  works on the graph object as it is by then; it runs only after \<open>save_begin\<close> has
  given an id, when the resource has a type and the graph is loaded, and its other
  branches are never reached. A \<^verbatim>\<open>save\<close> that no other call overlaps is the two in a
  row (\<open>save_begin_end\<close> below).
\<close>

definition save_begin ::
  "('c, 'f) json \<Rightarrow> 'f resource \<Rightarrow> ('c, 'f) world \<Rightarrow> (error, nat) promise \<times> ('c, 'f) world" where
  "save_begin J resource w =
     (case res_type resource of
        None \<Rightarrow> (Rejected MissingType, w)
      | Some t \<Rightarrow>
          (case loadGraph J w of
             (Rejected e, w1) \<Rightarrow> (Rejected (IOFailure e), w1)
           | (Unsettled, w1) \<Rightarrow> (Unsettled, w1)
           | (Resolved graph0, w1) \<Rightarrow>
               (let graph1 =
                      (if map_of graph0 t = None \<and> t \<notin> set Object_prototype_names
                       then AList.update t [] graph0 else graph0);
                    w2 = w1\<lparr>promise := Some (Resolved graph1)\<rparr>
                in case res_id resource of
                     None \<Rightarrow> generateUniqueID J t w2
                   | Some i \<Rightarrow>
                       if graph_get graph1 t i = None then generateUniqueID J t w2
                       else (Resolved i, w2))))"

definition save_end ::
  "('c, 'f) json \<Rightarrow> 'f resource \<Rightarrow> nat \<Rightarrow> ('c, 'f) world \<Rightarrow>
     (error, 'f graph) promise \<times> 'f resource \<times> ('c, 'f) world" where
  "save_end J resource resourceID w =
     (case res_type resource of
        None \<Rightarrow> (Unsettled, resource, w)
      | Some t \<Rightarrow>
          (case promise w of
             Some (Resolved graph) \<Rightarrow>
               (let resource' = resource\<lparr>res_id := Some resourceID\<rparr>;
                    graph2 = graph_put graph t resourceID resource';
                    w4 = w\<lparr>promise := Some (Resolved graph2)\<rparr>
                in case persistGraph J graph2 w4 of
                     (Resolved g, w5) \<Rightarrow> (Resolved g, resource', w5)
                   | (Rejected e, w5) \<Rightarrow> (Rejected (IOFailure e), resource', w5)
                   | (Unsettled, w5) \<Rightarrow> (Unsettled, resource', w5))
           | _ \<Rightarrow> (Unsettled, resource, w)))"

text \<open>
  \<^verbatim>\<open>delete\<close> resolves with the graph, or with \<^verbatim>\<open>undefined\<close> (\<open>None\<close>) where it stops early.
  Under a name of \<open>Object_prototype_names\<close> that is no property of the graph itself the
  test of line 235 finds the built-in: \<^verbatim>\<open>delete\<close> does not stop, removes nothing from the
  graph, and persists the graph.
\<close>

definition delete_store ::
  "('c, 'f) json \<Rightarrow> 'f resource \<Rightarrow> ('c, 'f) world \<Rightarrow>
     (error, 'f graph option) promise \<times> ('c, 'f) world" where
  "delete_store J resource w =
     (case res_type resource of
        None \<Rightarrow> (Rejected MissingType, w)
      | Some t \<Rightarrow>
          (case res_id resource of
             None \<Rightarrow> (Resolved None, w)
           | Some i \<Rightarrow>
               (case loadGraph J w of
                  (Rejected e, w1) \<Rightarrow> (Rejected (IOFailure e), w1)
                | (Unsettled, w1) \<Rightarrow> (Unsettled, w1)
                | (Resolved graph, w1) \<Rightarrow>
                    (case map_of graph t of
                       None \<Rightarrow>
                         if t \<in> set Object_prototype_names
                         then (case persistGraph J graph w1 of
                                 (Resolved g, w3) \<Rightarrow> (Resolved (Some g), w3)
                               | (Rejected e, w3) \<Rightarrow> (Rejected (IOFailure e), w3)
                               | (Unsettled, w3) \<Rightarrow> (Unsettled, w3))
                         else (Resolved None, w1)
                     | Some part \<Rightarrow>
                         (let graph' = graph_remove graph t i;
                              w2 = w1\<lparr>promise := Some (Resolved graph')\<rparr>
                          in case persistGraph J graph' w2 of
                               (Resolved g, w3) \<Rightarrow> (Resolved (Some g), w3)
                             | (Rejected e, w3) \<Rightarrow> (Rejected (IOFailure e), w3)
                             | (Unsettled, w3) \<Rightarrow> (Unsettled, w3))))))"

subsection \<open>Calls of the module, one after the other and overlapping\<close>

text \<open>
  A call of the module. It asks \<^verbatim>\<open>loadGraph\<close> for the graph unless it throws or returns
  before: \<^verbatim>\<open>find\<close> always asks, \<^verbatim>\<open>save\<close> throws first when the type is missing, and
  \<^verbatim>\<open>delete\<close> throws first when the type is missing and returns first when the id is.
\<close>

datatype 'f call = Find string "nat option" | Save "'f resource" | Delete "'f resource"

fun requests_graph :: "'f call \<Rightarrow> bool" where
  "requests_graph (Find t i) = True"
| "requests_graph (Save r) = (res_type r \<noteq> None)"
| "requests_graph (Delete r) = (res_type r \<noteq> None \<and> res_id r \<noteq> None)"

text \<open>Calls that run one after the other, each to its end.\<close>

fun perform :: "('c, 'f) json \<Rightarrow> ('c, 'f) world \<Rightarrow> 'f call \<Rightarrow> ('c, 'f) world" where
  "perform J w (Find t i) = snd (find_store J t i w)"
| "perform J w (Save r) = snd (snd (save J r w))"
| "perform J w (Delete r) = snd (delete_store J r w)"

text \<open>
  Calls that overlap. What matters for the reads is the variable \<^verbatim>\<open>promise\<close> of
  \<^verbatim>\<open>loadGraph\<close> alone: it is \<^verbatim>\<open>null\<close> (\<open>None\<close>), or holds the promise of \<^verbatim>\<open>loadDB\<close>, which
  is pending (\<open>Some Unsettled\<close>) until the callback of \<^verbatim>\<open>fs.readFile\<close> settles it.
  \<^verbatim>\<open>loadGraph\<close> runs without interruption: it calls \<^verbatim>\<open>loadDB\<close>, which issues the read and
  returns its pending promise at once, only when the variable is \<^verbatim>\<open>null\<close>. Everything a
  call does after its \<^verbatim>\<open>await loadGraph()\<close> leaves the variable alone and reads the file
  through \<^verbatim>\<open>loadGraph\<close> only. The events are the calls, in the order they are issued,
  and the settling of the pending promise, wherever it falls between them.
\<close>

record 'f loader =
  cell :: "(fs_error, 'f graph) promise option"
  issued :: nat

datatype 'f event = Call "'f call" | Settle "(fs_error, 'f graph) promise"

definition loadGraph_begin :: "'f loader \<Rightarrow> 'f loader" where
  "loadGraph_begin s =
     (if cell s = None then s\<lparr>cell := Some Unsettled, issued := issued s + 1\<rparr> else s)"

fun step :: "'f loader \<Rightarrow> 'f event \<Rightarrow> 'f loader" where
  "step s (Call c) = (if requests_graph c then loadGraph_begin s else s)"
| "step s (Settle p) = (if cell s = Some Unsettled then s\<lparr>cell := Some p\<rparr> else s)"

definition run :: "'f event list \<Rightarrow> 'f loader \<Rightarrow> 'f loader" where
  "run es s = foldl step s es"

definition unloaded :: "'f loader" where
  "unloaded = \<lparr>cell = None, issued = 0\<rparr>"

subsection \<open>The order of the keys\<close>

text \<open>
  The keys of every partition ascend in the order of their insertion, and none is
  above \<open>2\<^sup>5\<^sup>3\<close>. The empty graph is so, and \<^verbatim>\<open>save\<close> and \<^verbatim>\<open>delete\<close> keep it so, because a
  new key is above all keys of its partition, up to \<open>2\<^sup>5\<^sup>3\<close>, where the new key is the
  greatest key once more. For a world it is said of the graph in memory, or, before
  the first load, of the graph the file holds.
\<close>

definition ascending :: "'f graph \<Rightarrow> bool" where
  "ascending graph = list_all (\<lambda>(t, part). sorted_wrt (<) (map fst part)) graph"

definition safe_ids :: "'f graph \<Rightarrow> bool" where
  "safe_ids graph = list_all (\<lambda>(t, part). list_all (\<lambda>(k, r). k \<le> 2 ^ 53) part) graph"

definition world_ascending :: "('c, 'f) json \<Rightarrow> ('c, 'f) world \<Rightarrow> bool" where
  "world_ascending J w =
     (case promise w of
        Some (Resolved g) \<Rightarrow> ascending g \<and> safe_ids g
      | Some _ \<Rightarrow> True
      | None \<Rightarrow>
          (case content w of
             None \<Rightarrow> True
           | Some c \<Rightarrow>
               (case parse J c of None \<Rightarrow> True | Some g \<Rightarrow> ascending g \<and> safe_ids g)))"

subsection \<open>Concrete worlds\<close>

text \<open>
  A serialisation that loses nothing: the text of the file is identified with the
  graph it denotes, and parsing gives that graph back.
\<close>

definition json_exact :: "('f graph, 'f) json" where
  "json_exact = \<lparr>stringify = id, parse = Some\<rparr>"

text \<open>The first run of the application: no file yet, nothing loaded, a working disk.\<close>

definition first_run :: "('c, 'f) world" where
  "first_run =
     \<lparr>content = None, read_fault = None, write_fault = None, promise = None,
      reads = 0, writes = 0\<rparr>"

text \<open>The task resource the component \<^verbatim>\<open>tasks\<close> creates: \<^verbatim>\<open>{ type: 'tasks', name, ... }\<close>.\<close>

definition task :: "string \<Rightarrow> string resource" where
  "task name = \<lparr>res_type = Some ''tasks'', res_id = None, res_data = name\<rparr>"

text \<open>A resource as it sits in the graph, and a world in which the graph \<open>g\<close> has been
  loaded and the file holds it.\<close>

definition stored :: "nat \<Rightarrow> string \<Rightarrow> string resource" where
  "stored i name = \<lparr>res_type = Some ''tasks'', res_id = Some i, res_data = name\<rparr>"

definition loaded :: "'f graph \<Rightarrow> ('f graph, 'f) world" where
  "loaded g =
     \<lparr>content = Some g, read_fault = None, write_fault = None, promise = Some (Resolved g),
      reads = 1, writes = 1\<rparr>"

text \<open>
  A world in which the file has fallen behind the graph in memory: the task A is
  saved on the first run, then the disk starts to refuse writes, and the task B is
  saved. The second \<^verbatim>\<open>save\<close> has put B into the graph before its write is refused.
\<close>

definition after_refused_write :: "(string graph, string) world" where
  "after_refused_write =
     snd (snd (save json_exact (task ''B'')
       ((snd (snd (save json_exact (task ''A'') first_run)))
          \<lparr>write_fault := Some (FsError ''EACCES'')\<rparr>)))"

text \<open>A resource of a type nothing has been saved of.\<close>

definition memo :: "string resource" where
  "memo = \<lparr>res_type = Some ''notes'', res_id = Some 1, res_data = ''N''\<rparr>"

section \<open>Properties\<close>

subsection \<open>The load cache\<close>

lemma loadGraph_promise: "loadGraph J w = (p, w1) \<Longrightarrow> promise w1 = Some p"
  by (auto simp: loadGraph_def split: option.splits prod.splits)

lemma loadGraph_cached: "promise w = Some p \<Longrightarrow> loadGraph J w = (p, w)"
  by (simp add: loadGraph_def)


subsection \<open>Identifiers\<close>

lemma fold_max_Max: "fold max ks (a::nat) = Max (insert a (set ks))"
proof (induction ks arbitrary: a)
  case Nil
  show ?case by simp
next
  case (Cons k ks)
  have "Max (insert (max k a) (set ks)) = Max (insert a (insert k (set ks)))"
    by (cases "set ks = {}") (simp_all add: max.commute max.left_commute max.assoc)
  with Cons show ?case by simp
qed

lemma spare_bits_small: "n < 2 ^ 53 \<Longrightarrow> spare_bits n = 0"
  by simp

lemma to_double_small: "n \<le> 2 ^ 53 \<Longrightarrow> to_double n = n"
proof (cases "n < 2 ^ 53")
  case True
  then show ?thesis by (simp add: to_double_def)
next
  case False
  assume "n \<le> 2 ^ 53"
  with False have n: "n = 2 ^ 53" by simp
  have sb: "spare_bits (2 ^ 53) = Suc 0" by simp
  show ?thesis unfolding n to_double_def sb Let_def by simp
qed

lemma to_double_above: "to_double (2 ^ 53 + 1) = 2 ^ 53"
proof -
  have sb: "spare_bits (2 ^ 53 + 1) = Suc 0" by simp
  show ?thesis unfolding to_double_def sb Let_def by simp
qed

declare spare_bits.simps [simp del]

lemma set_Object_keys: "set (Object_keys part) = fst ` set part"
  by (auto simp: Object_keys_def)

lemma Math_max0_keys:
  "Math_max0 (Object_keys part) = Max (insert 0 (to_double ` fst ` set part))"
  by (simp add: Math_max0_def fold_max_Max set_Object_keys)

lemma Math_max0_small:
  assumes "\<forall>k \<in> fst ` set part. k \<le> 2 ^ 53"
  shows "Math_max0 (Object_keys part) = Max (insert 0 (fst ` set part))"
proof -
  have "to_double ` fst ` set part = fst ` set part"
    using assms by (force simp: to_double_small)
  then show ?thesis by (simp add: Math_max0_keys)
qed

lemma plus_one_small: "m < 2 ^ 53 \<Longrightarrow> plus_one m = m + 1"
  by (simp add: plus_one_def to_double_small)

lemma plus_one_top: "plus_one (2 ^ 53) = 2 ^ 53"
  unfolding plus_one_def by (rule to_double_above)

lemma empty_new_id: "plus_one (Math_max0 (Object_keys [])) = Suc 0"
  by (simp add: Math_max0_def Object_keys_def plus_one_small)

lemma single_new_id:
  "k < 2 ^ 53 \<Longrightarrow> plus_one (Math_max0 (Object_keys [(k, r)])) = Suc k"
proof -
  assume k: "k < 2 ^ 53"
  then have "Math_max0 (Object_keys [(k, r)]) = k"
    by (simp add: Math_max0_small)
  with k show ?thesis by (simp add: plus_one_small)
qed

lemma generateUniqueID_cached:
  "promise w = Some (Resolved g) \<Longrightarrow> map_of g t = Some part \<Longrightarrow>
   generateUniqueID J t w = (Resolved (plus_one (Math_max0 (Object_keys part))), w)"
  by (simp add: generateUniqueID_def loadGraph_cached)

subsection \<open>What \<^verbatim>\<open>save\<close> does once the graph is there\<close>

lemma save_loaded:
  fixes r :: "'f resource" and J :: "('c, 'f) json"
  assumes load: "loadGraph J w = (Resolved g0, w1)" and ty: "res_type r = Some t"
    and own: "map_of g0 t \<noteq> None \<or> t \<notin> set Object_prototype_names"
  defines "part \<equiv> (case map_of g0 t of None \<Rightarrow> [] | Some p \<Rightarrow> p)"
  defines "g1 \<equiv> (if map_of g0 t = None then AList.update t [] g0 else g0)"
  defines "k \<equiv> (case res_id r of None \<Rightarrow> plus_one (Math_max0 (Object_keys part))
      | Some i \<Rightarrow> if map_of part i = None then plus_one (Math_max0 (Object_keys part)) else i)"
  defines "r' \<equiv> r\<lparr>res_id := Some k\<rparr>"
  defines "g2 \<equiv> AList.update t (AList.update k r' part) g1"
  shows "save J r w =
     (case write_fault w1 of
        None \<Rightarrow> (Resolved g2, r', w1\<lparr>promise := Some (Resolved g2), writes := writes w1 + 1,
                      content := Some (stringify J g2)\<rparr>)
      | Some e \<Rightarrow> (Rejected (IOFailure e), r', w1\<lparr>promise := Some (Resolved g2), writes := writes w1 + 1\<rparr>))"
proof -
  let ?w2 = "w1\<lparr>promise := Some (Resolved g1)\<rparr>"
  have g1': "g1 = (if map_of g0 t = None \<and> t \<notin> set Object_prototype_names
      then AList.update t [] g0 else g0)"
    using own by (auto simp: g1_def)
  have g1: "map_of g1 t = Some part"
  proof (cases "map_of g0 t")
    case None
    then show ?thesis by (simp add: g1_def part_def update_conv')
  next
    case (Some p)
    then show ?thesis by (simp add: g1_def part_def)
  qed
  have gen: "generateUniqueID J t ?w2 = (Resolved (plus_one (Math_max0 (Object_keys part))), ?w2)"
    by (rule generateUniqueID_cached[where g = g1]) (simp_all add: g1)
  have gg: "graph_get g1 t i = map_of part i" for i
    by (simp add: graph_get_def g1)
  have gp: "graph_put g1 t i x = AList.update t (AList.update i x part) g1" for i x
    by (simp add: graph_put_def g1)
  have id: "(case res_id r of None \<Rightarrow> generateUniqueID J t ?w2
            | Some i \<Rightarrow> if graph_get g1 t i = None then generateUniqueID J t ?w2 else (Resolved i, ?w2))
          = (Resolved k, ?w2)"
    by (simp add: gen gg k_def split: option.splits)
  have "save J r w = (case persistGraph J g2 (?w2\<lparr>promise := Some (Resolved g2)\<rparr>) of
                             (Resolved g, w5) \<Rightarrow> (Resolved g, r', w5)
                           | (Rejected e, w5) \<Rightarrow> (Rejected (IOFailure e), r', w5)
                           | (Unsettled, w5) \<Rightarrow> (Unsettled, r', w5))"
    unfolding save_def load ty option.case prod.case promise.case Let_def g1'[symmetric] id
      gp r'_def g2_def ..
  then show ?thesis
    unfolding r'_def g2_def
    by (simp add: persistGraph_def fs_writeFile_def Let_def split: option.splits)
qed

lemma save_inherited:
  fixes r :: "'f resource" and J :: "('c, 'f) json"
  assumes load: "loadGraph J w = (Resolved g0, w1)" and ty: "res_type r = Some t"
    and none: "map_of g0 t = None" and name: "t \<in> set Object_prototype_names"
  shows "save J r w =
     (case write_fault w1 of
        None \<Rightarrow> (Resolved g0, r\<lparr>res_id := Some 1\<rparr>,
                  w1\<lparr>promise := Some (Resolved g0), writes := writes w1 + 1,
                      content := Some (stringify J g0)\<rparr>)
      | Some e \<Rightarrow> (Rejected (IOFailure e), r\<lparr>res_id := Some 1\<rparr>,
                  w1\<lparr>promise := Some (Resolved g0), writes := writes w1 + 1\<rparr>))"
proof -
  let ?w2 = "w1\<lparr>promise := Some (Resolved g0)\<rparr>"
  have gen: "generateUniqueID J t ?w2 = (Resolved (Suc 0), ?w2)"
    by (simp add: generateUniqueID_def loadGraph_cached none name Math_max0_def plus_one_small)
  have id: "(case res_id r of None \<Rightarrow> generateUniqueID J t ?w2
            | Some i \<Rightarrow> if graph_get g0 t i = None then generateUniqueID J t ?w2 else (Resolved i, ?w2))
          = (Resolved (Suc 0), ?w2)"
    by (simp add: gen graph_get_def none split: option.splits)
  have g1: "(if map_of g0 t = None \<and> t \<notin> set Object_prototype_names
      then AList.update t [] g0 else g0) = g0"
    using name by simp
  have gp: "graph_put g0 t i x = g0" for i x
    by (simp add: graph_put_def none)
  have "save J r w = (case persistGraph J g0 (?w2\<lparr>promise := Some (Resolved g0)\<rparr>) of
                             (Resolved g, w5) \<Rightarrow> (Resolved g, r\<lparr>res_id := Some (Suc 0)\<rparr>, w5)
                           | (Rejected e, w5) \<Rightarrow> (Rejected (IOFailure e), r\<lparr>res_id := Some (Suc 0)\<rparr>, w5)
                           | (Unsettled, w5) \<Rightarrow> (Unsettled, r\<lparr>res_id := Some (Suc 0)\<rparr>, w5))"
    unfolding save_def load ty option.case prod.case promise.case Let_def g1 id gp ..
  then show ?thesis
    by (simp add: persistGraph_def fs_writeFile_def Let_def split: option.splits)
qed

lemma save_shape:
  fixes r :: "'f resource" and J :: "('c, 'f) json"
  assumes load: "loadGraph J w = (Resolved g0, w1)" and ty: "res_type r = Some t"
  obtains g2 k where "save J r w =
     (case write_fault w1 of
        None \<Rightarrow> (Resolved g2, r\<lparr>res_id := Some k\<rparr>,
                  w1\<lparr>promise := Some (Resolved g2), writes := writes w1 + 1,
                      content := Some (stringify J g2)\<rparr>)
      | Some e \<Rightarrow> (Rejected (IOFailure e), r\<lparr>res_id := Some k\<rparr>,
                  w1\<lparr>promise := Some (Resolved g2), writes := writes w1 + 1\<rparr>))"
proof (cases "map_of g0 t = None \<and> t \<in> set Object_prototype_names")
  case True
  then show ?thesis
    using save_inherited [OF load ty] that by blast
next
  case False
  then have "map_of g0 t \<noteq> None \<or> t \<notin> set Object_prototype_names" by auto
  from save_loaded [OF load ty this] show ?thesis
    using that by blast
qed

subsection \<open>What \<^verbatim>\<open>delete\<close> does once the graph is there\<close>

lemma delete_loaded:
  assumes load: "loadGraph J w = (Resolved g, w1)" and ty: "res_type r = Some t"
    and rid: "res_id r = Some i" and part: "map_of g t = Some part"
  defines "g' \<equiv> AList.update t (AList.delete i part) g"
  shows "delete_store J r w =
     (case write_fault w1 of
        None \<Rightarrow> (Resolved (Some g'), w1\<lparr>promise := Some (Resolved g'), writes := writes w1 + 1,
                      content := Some (stringify J g')\<rparr>)
      | Some e \<Rightarrow> (Rejected (IOFailure e), w1\<lparr>promise := Some (Resolved g'), writes := writes w1 + 1\<rparr>))"
  unfolding g'_def
  by (simp add: delete_store_def load ty rid part graph_remove_def Let_def persistGraph_def
      fs_writeFile_def split: option.splits)

lemma delete_inherited:
  assumes load: "loadGraph J w = (Resolved g, w1)" and ty: "res_type r = Some t"
    and rid: "res_id r = Some i" and none: "map_of g t = None"
    and name: "t \<in> set Object_prototype_names"
  shows "delete_store J r w =
     (case write_fault w1 of
        None \<Rightarrow> (Resolved (Some g), w1\<lparr>writes := writes w1 + 1,
                      content := Some (stringify J g)\<rparr>)
      | Some e \<Rightarrow> (Rejected (IOFailure e), w1\<lparr>writes := writes w1 + 1\<rparr>))"
  by (simp add: delete_store_def load ty rid none name Let_def persistGraph_def
      fs_writeFile_def split: option.splits)

subsection \<open>The first run\<close>

lemma tasks_own: "''tasks'' \<notin> set Object_prototype_names"
  by (simp add: Object_prototype_names_def)

lemma first_run_load:
  "loadGraph json_exact first_run =
     (Resolved [], \<lparr>content = Some [], read_fault = None, write_fault = None,
        promise = Some (Resolved []), reads = 1, writes = 1\<rparr>)"
  by (simp add: loadGraph_def loadDB_def fs_readFile_def persistGraph_def fs_writeFile_def
      first_run_def json_exact_def Let_def)

section \<open>The claims\<close>

subsection \<open>C1: the first id of a type\<close>

text \<open>
  C1 says that saving the first resource of a fresh type (no partition in the graph
  yet), with no id, assigns the id 0. The code assigns 1: \<^verbatim>\<open>save\<close> creates the empty
  partition before it asks \<^verbatim>\<open>generateUniqueID\<close> (or finds a built-in under the name of
  the type), so the branch of \<^verbatim>\<open>generateUniqueID\<close> that returns 0 for a missing partition
  is never taken from \<^verbatim>\<open>save\<close>, and the id is \<^verbatim>\<open>Math.max(0) + 1\<close>. The theorem states what
  the code does for every loaded graph without a partition of the type.
\<close>

theorem save_first_of_type_gets_one:
  assumes "loadGraph J w = (Resolved g, w1)" and "res_type r = Some t"
    and "map_of g t = None" and "res_id r = None"
  shows "res_id (fst (snd (save J r w))) = Some 1"
proof (cases "t \<in> set Object_prototype_names")
  case True
  from save_inherited [OF assms(1,2,3) True] show ?thesis
    by (cases "write_fault w1") simp_all
next
  case False
  then have "map_of g t \<noteq> None \<or> t \<notin> set Object_prototype_names" by simp
  from save_loaded [OF assms(1,2) this] assms(3,4) show ?thesis
    by (cases "write_fault w1") (simp_all add: empty_new_id)
qed

theorem save_first_of_type_gets_one_witness:
  "fst (loadGraph json_exact (first_run :: (string graph, string) world)) = Resolved []
   \<and> res_type (task ''A'') = Some ''tasks'' \<and> map_of ([] :: string graph) ''tasks'' = None
   \<and> res_id (task ''A'') = None
   \<and> res_id (fst (snd (save json_exact (task ''A'') (first_run :: (string graph, string) world)))) = Some 1
   \<and> res_id (fst (snd (save json_exact (task ''A'') (first_run :: (string graph, string) world)))) \<noteq> Some 0"
  using save_first_of_type_gets_one [OF first_run_load, of "task ''A''" "''tasks''"]
  by (simp add: first_run_load task_def)

lemma loaded_load: "loadGraph json_exact (loaded g) = (Resolved g, loaded g)"
  by (simp add: loadGraph_cached loaded_def)

subsection \<open>C2: fresh ids are one above the maximum\<close>

lemma generateUniqueID_world:
  "promise w = Some (Resolved g) \<Longrightarrow> snd (generateUniqueID J t w) = w"
  by (simp add: generateUniqueID_def loadGraph_cached split: option.splits)

lemma save_begin_end:
  "save J r w =
     (case save_begin J r w of
        (Resolved n, w') \<Rightarrow> save_end J r n w'
      | (Rejected e, w') \<Rightarrow> (Rejected e, r, w')
      | (Unsettled, w') \<Rightarrow> (Unsettled, r, w'))"
proof (cases "res_type r")
  case None
  then show ?thesis by (simp add: save_def save_begin_def)
next
  case (Some t)
  obtain p w1 where load: "loadGraph J w = (p, w1)" by (cases "loadGraph J w")
  show ?thesis
  proof (cases p)
    case (Resolved g0)
    define g1 where "g1 = (if map_of g0 t = None \<and> t \<notin> set Object_prototype_names
      then AList.update t [] g0 else g0)"
    define w2 where "w2 = w1\<lparr>promise := Some (Resolved g1)\<rparr>"
    define idw where "idw = (case res_id r of
                     None \<Rightarrow> generateUniqueID J t w2
                   | Some i \<Rightarrow>
                       if graph_get g1 t i = None then generateUniqueID J t w2
                       else (Resolved i, w2))"
    have pw2: "promise w2 = Some (Resolved g1)" by (simp add: w2_def)
    have world: "snd idw = w2"
      by (simp add: idw_def generateUniqueID_world [OF pw2] split: option.splits)
    have load': "loadGraph J w = (Resolved g0, w1)" using load Resolved by simp
    have b: "save_begin J r w = idw"
      unfolding save_begin_def Some load' option.case prod.case promise.case Let_def
        g1_def [symmetric] w2_def [symmetric] idw_def [symmetric] ..
    have s: "save J r w =
       (case idw of (newID, w3) \<Rightarrow>
          (case newID of
             Rejected e \<Rightarrow> (Rejected e, r, w3)
           | Unsettled \<Rightarrow> (Unsettled, r, w3)
           | Resolved resourceID \<Rightarrow>
               (let resource' = r\<lparr>res_id := Some resourceID\<rparr>;
                    graph2 = graph_put g1 t resourceID resource';
                    w4 = w3\<lparr>promise := Some (Resolved graph2)\<rparr>
                in case persistGraph J graph2 w4 of
                     (Resolved g, w5) \<Rightarrow> (Resolved g, resource', w5)
                   | (Rejected e, w5) \<Rightarrow> (Rejected (IOFailure e), resource', w5)
                   | (Unsettled, w5) \<Rightarrow> (Unsettled, resource', w5))))"
      unfolding save_def Some load' option.case prod.case promise.case Let_def
        g1_def [symmetric] w2_def [symmetric] idw_def [symmetric] ..
    obtain newID w3 where idw: "idw = (newID, w3)" by (cases idw)
    with world have w3: "w3 = w2" by simp
    show ?thesis
      unfolding b s idw prod.case
      by (cases newID) (simp_all add: save_end_def Some w3 pw2 Let_def)
  qed (use load Some in \<open>simp_all add: save_def save_begin_def\<close>)
qed




subsection \<open>C3: saving an existing resource overwrites it in place\<close>

text \<open>
  C3: when the id of the resource is a key of the partition of its type, \<^verbatim>\<open>save\<close> keeps
  the id (the caller's object is left as it was, its id is the resolved id), puts the
  resource under that key, leaves every other entry of every partition as it was, and
  changes neither the order of the partitions nor the keys of any partition or their
  order.
\<close>

theorem save_existing_overwrites_in_place:
  assumes load: "loadGraph J w = (Resolved g, w1)" and ty: "res_type r = Some t"
    and rid: "res_id r = Some i" and part: "map_of g t = Some part"
    and old: "map_of part i = Some old"
  shows "\<exists>g'. promise (snd (snd (save J r w))) = Some (Resolved g')
           \<and> fst (snd (save J r w)) = r
           \<and> graph_get g' t i = Some r
           \<and> (\<forall>t' i'. (t', i') \<noteq> (t, i) \<longrightarrow> graph_get g' t' i' = graph_get g t' i')
           \<and> map fst g' = map fst g
           \<and> (\<forall>t'. map_option (map fst) (map_of g' t') = map_option (map fst) (map_of g t'))"
proof -
  let ?g' = "AList.update t (AList.update i r part) g"
  have r: "r\<lparr>res_id := Some i\<rparr> = r" using rid by simp
  have sv: "save J r w =
     (case write_fault w1 of
        None \<Rightarrow> (Resolved ?g', r, w1\<lparr>promise := Some (Resolved ?g'), writes := writes w1 + 1,
                      content := Some (stringify J ?g')\<rparr>)
      | Some e \<Rightarrow> (Rejected (IOFailure e), r, w1\<lparr>promise := Some (Resolved ?g'), writes := writes w1 + 1\<rparr>))"
    using save_loaded [OF load ty] by (cases "write_fault w1") (simp_all add: part rid old r)
  have 1: "promise (snd (snd (save J r w))) = Some (Resolved ?g')"
    by (simp add: sv split: option.splits)
  have 2: "fst (snd (save J r w)) = r"
    by (simp add: sv split: option.splits)
  have 3: "graph_get ?g' t i = Some r"
    by (simp add: graph_get_def update_conv')
  have 4: "graph_get ?g' t' i' = graph_get g t' i'" if "(t', i') \<noteq> (t, i)" for t' i'
    using that by (auto simp: graph_get_def update_conv' part)
  have tin: "t \<in> fst ` set g"
    using part by (metis map_of_eq_None_iff option.distinct(1))
  have iin: "i \<in> fst ` set part"
    using old by (metis map_of_eq_None_iff option.distinct(1))
  have 5: "map fst ?g' = map fst g"
    using tin by (simp add: update_keys)
  have 6: "map_option (map fst) (map_of ?g' t') = map_option (map fst) (map_of g t')" for t'
    using iin by (simp add: update_conv' part update_keys)
  from 1 2 3 4 5 6 show ?thesis by blast
qed

theorem save_existing_overwrites_in_place_witness:
  "loadGraph json_exact (loaded [(''tasks'', [(1, stored 1 ''A''), (2, stored 2 ''B'')])])
     = (Resolved [(''tasks'', [(1, stored 1 ''A''), (2, stored 2 ''B'')])],
        loaded [(''tasks'', [(1, stored 1 ''A''), (2, stored 2 ''B'')])])
   \<and> res_type (stored 1 ''A2'') = Some ''tasks'' \<and> res_id (stored 1 ''A2'') = Some 1
   \<and> map_of [(''tasks'', [(1, stored 1 ''A''), (2, stored 2 ''B'')])] ''tasks''
       = Some [(1, stored 1 ''A''), (2, stored 2 ''B'')]
   \<and> map_of [(1 :: nat, stored 1 ''A''), (2, stored 2 ''B'')] 1 = Some (stored 1 ''A'')
   \<and> promise (snd (snd (save json_exact (stored 1 ''A2'')
         (loaded [(''tasks'', [(1, stored 1 ''A''), (2, stored 2 ''B'')])]))))
       = Some (Resolved [(''tasks'', [(1, stored 1 ''A2''), (2, stored 2 ''B'')])])
   \<and> fst (snd (save json_exact (stored 1 ''A2'')
         (loaded [(''tasks'', [(1, stored 1 ''A''), (2, stored 2 ''B'')])]))) = stored 1 ''A2''"
proof -
  let ?g = "[(''tasks'', [(1, stored 1 ''A''), (2, stored 2 ''B'')])]"
  have hyps: "res_type (stored 1 ''A2'') = Some ''tasks''" "res_id (stored 1 ''A2'') = Some 1"
    "map_of ?g ''tasks'' = Some [(1, stored 1 ''A''), (2, stored 2 ''B'')]"
    "map_of [(1, stored 1 ''A''), (2, stored 2 ''B'')] 1 = Some (stored 1 ''A'')"
    by (simp_all add: stored_def)
  have sv: "promise (snd (snd (save json_exact (stored 1 ''A2'') (loaded ?g))))
       = Some (Resolved [(''tasks'', [(1, stored 1 ''A2''), (2, stored 2 ''B'')])])"
    using save_loaded [OF loaded_load, where r = "stored 1 ''A2''" and t = "''tasks''" and ?g0.0 = ?g]
    by (simp add: stored_def loaded_def tasks_own)
  from save_existing_overwrites_in_place [OF loaded_load hyps]
  have "fst (snd (save json_exact (stored 1 ''A2'') (loaded ?g))) = stored 1 ''A2''"
    by blast
  with hyps sv show ?thesis by (simp add: loaded_load)
qed

subsection \<open>The order of keys is kept\<close>



lemma ascending_lookup:
  "ascending g \<Longrightarrow> map_of g t = Some part \<Longrightarrow> sorted_wrt (<) (map fst part)"
  by (auto simp: ascending_def list_all_iff dest!: map_of_SomeD)

lemma ascending_update:
  "ascending g \<Longrightarrow> sorted_wrt (<) (map fst part) \<Longrightarrow> ascending (AList.update t part g)"
  by (induction g) (auto simp: ascending_def)

lemma safe_lookup:
  "safe_ids g \<Longrightarrow> map_of g t = Some part \<Longrightarrow> k \<in> fst ` set part \<Longrightarrow> k \<le> 2 ^ 53"
  by (force simp: safe_ids_def list_all_iff dest!: map_of_SomeD)

lemma safe_update:
  "safe_ids g \<Longrightarrow> (\<And>k. k \<in> fst ` set part \<Longrightarrow> k \<le> 2 ^ 53) \<Longrightarrow>
   safe_ids (AList.update t part g)"
  by (induction g) (force simp: safe_ids_def list_all_iff)+

lemma new_id_place:
  assumes bound: "\<forall>x \<in> fst ` set part. x \<le> 2 ^ 53"
    and k: "k = plus_one (Math_max0 (Object_keys part))"
  shows "k \<le> 2 ^ 53 \<and> (k \<in> fst ` set part \<or> (\<forall>x \<in> fst ` set part. x < k))"
proof -
  let ?m = "Max (insert 0 (fst ` set part))"
  have m: "Math_max0 (Object_keys part) = ?m"
    using bound by (rule Math_max0_small)
  have le: "?m \<le> 2 ^ 53"
    using bound by simp
  show ?thesis
  proof (cases "?m < 2 ^ 53")
    case True
    then have "k = ?m + 1"
      by (simp add: k m plus_one_small)
    moreover have "x < ?m + 1" if "x \<in> fst ` set part" for x
      using that by (simp add: less_Suc_eq_le)
    ultimately show ?thesis using True by auto
  next
    case False
    from le False have top: "?m = 2 ^ 53" by linarith
    have "k = 2 ^ 53"
      unfolding k m top by (rule plus_one_top)
    moreover have "?m \<in> insert 0 (fst ` set part)"
      by (rule Max_in) simp_all
    then have "2 ^ 53 \<in> fst ` set part"
      unfolding top by simp
    ultimately show ?thesis by simp
  qed
qed

lemma sorted_update_partition:
  assumes "sorted_wrt (<) (map fst part)" and "\<forall>x \<in> fst ` set part. x \<le> 2 ^ 53"
    and "map_of part k \<noteq> None \<or> k = plus_one (Math_max0 (Object_keys part))"
  shows "sorted_wrt (<) (map fst (AList.update k r part))"
    and "\<forall>x \<in> fst ` set (AList.update k r part). x \<le> 2 ^ 53"
proof -
  have place: "k \<le> 2 ^ 53 \<and> (k \<in> fst ` set part \<or> (\<forall>x \<in> fst ` set part. x < k))"
  proof (cases "map_of part k")
    case None
    with assms(3) have "k = plus_one (Math_max0 (Object_keys part))" by simp
    with assms(2) show ?thesis by (rule new_id_place)
  next
    case (Some y)
    then have "k \<in> fst ` set part"
      by (metis map_of_eq_None_iff option.distinct(1))
    with assms(2) show ?thesis by blast
  qed
  show "sorted_wrt (<) (map fst (AList.update k r part))"
  proof (cases "k \<in> fst ` set part")
    case True
    with assms(1) show ?thesis by (simp add: update_keys)
  next
    case False
    with place have "\<forall>x \<in> fst ` set part. x < k" by simp
    with assms(1) False show ?thesis
      by (simp add: update_keys sorted_wrt_append)
  qed
  show "\<forall>x \<in> fst ` set (AList.update k r part). x \<le> 2 ^ 53"
    using place assms(2) by (simp add: dom_update)
qed

lemma sorted_delete_partition:
  "sorted_wrt (<) (map fst part) \<Longrightarrow> sorted_wrt (<) (map fst (AList.delete i part))"
  by (simp add: delete_keys removeAll_filter_not_eq sorted_wrt_filter)

lemma loadGraph_ascending:
  assumes "world_ascending J w" and "loadGraph J w = (Resolved g, w1)"
  shows "ascending g"
  using assms
  by (auto simp: world_ascending_def loadGraph_def loadDB_def fs_readFile_def persistGraph_def
      fs_writeFile_def Let_def ascending_def split: option.splits promise.splits if_splits prod.splits)

lemma loadGraph_safe:
  assumes "world_ascending J w" and "loadGraph J w = (Resolved g, w1)"
  shows "safe_ids g"
  using assms
  by (auto simp: world_ascending_def loadGraph_def loadDB_def fs_readFile_def persistGraph_def
      fs_writeFile_def Let_def safe_ids_def split: option.splits promise.splits if_splits prod.splits)

lemma save_ascending:
  assumes inv: "world_ascending J w"
  shows "world_ascending J (snd (snd (save J r w)))"
proof (cases "res_type r")
  case None
  with inv show ?thesis by (simp add: save_def)
next
  case (Some t)
  obtain p w1 where load: "loadGraph J w = (p, w1)" by (cases "loadGraph J w")
  then have pr: "promise w1 = Some p" by (rule loadGraph_promise)
  show ?thesis
  proof (cases p)
    case (Resolved g0)
    with load have load': "loadGraph J w = (Resolved g0, w1)" by simp
    have asc: "ascending g0" using inv load' by (rule loadGraph_ascending)
    have safe: "safe_ids g0" using inv load' by (rule loadGraph_safe)
    show ?thesis
    proof (cases "map_of g0 t = None \<and> t \<in> set Object_prototype_names")
      case True
      then have "promise (snd (snd (save J r w))) = Some (Resolved g0)"
        using save_inherited [OF load' Some] by (cases "write_fault w1") simp_all
      with asc safe show ?thesis by (simp add: world_ascending_def)
    next
      case False
      then have own: "map_of g0 t \<noteq> None \<or> t \<notin> set Object_prototype_names" by auto
      define part where "part = (case map_of g0 t of None \<Rightarrow> [] | Some p \<Rightarrow> p)"
      define g1 where "g1 = (if map_of g0 t = None then AList.update t [] g0 else g0)"
      define k where "k = (case res_id r of None \<Rightarrow> plus_one (Math_max0 (Object_keys part))
        | Some i \<Rightarrow> if map_of part i = None then plus_one (Math_max0 (Object_keys part)) else i)"
      define g2 where "g2 = AList.update t (AList.update k (r\<lparr>res_id := Some k\<rparr>) part) g1"
      have sp: "sorted_wrt (<) (map fst part)"
        using asc by (auto simp: part_def split: option.splits dest: ascending_lookup)
      have bp: "\<forall>x \<in> fst ` set part. x \<le> 2 ^ 53"
      proof (cases "map_of g0 t")
        case None
        then show ?thesis by (simp add: part_def)
      next
        case (Some p)
        then have "part = p" by (simp add: part_def)
        with safe Some show ?thesis by (blast intro: safe_lookup)
      qed
      have "safe_ids (AList.update t [] g0)"
        using safe by (rule safe_update) simp
      with asc safe have g1: "ascending g1" "safe_ids g1"
        by (simp_all add: g1_def ascending_update)
      have "map_of part k \<noteq> None \<or> k = plus_one (Math_max0 (Object_keys part))"
        by (auto simp: k_def split: option.splits)
      note new = sorted_update_partition [OF sp bp this, of "r\<lparr>res_id := Some k\<rparr>"]
      have "ascending g2"
        using g1(1) new(1) by (simp add: g2_def ascending_update)
      moreover have "safe_ids g2"
        unfolding g2_def using g1(2)
      proof (rule safe_update)
        fix x assume "x \<in> fst ` set (AList.update k (r\<lparr>res_id := Some k\<rparr>) part)"
        with new(2) show "x \<le> 2 ^ 53" by blast
      qed
      moreover have "promise (snd (snd (save J r w))) = Some (Resolved g2)"
        using save_loaded [OF load' Some own, folded part_def, folded g1_def k_def, folded g2_def]
        by (cases "write_fault w1") simp_all
      ultimately show ?thesis by (simp add: world_ascending_def)
    qed
  next
    case (Rejected e)
    with load pr Some show ?thesis by (simp add: save_def world_ascending_def)
  next
    case Unsettled
    with load pr Some show ?thesis by (simp add: save_def world_ascending_def)
  qed
qed

lemma persistGraph_promise: "promise (snd (persistGraph J g w)) = promise w"
  by (simp add: persistGraph_def fs_writeFile_def Let_def split: option.splits)

lemma delete_ascending:
  assumes inv: "world_ascending J w"
  shows "world_ascending J (snd (delete_store J r w))"
proof (cases "res_type r")
  case None
  with inv show ?thesis by (simp add: delete_store_def)
next
  case (Some t)
  show ?thesis
  proof (cases "res_id r")
    case None
    with inv Some show ?thesis by (simp add: delete_store_def)
  next
    case rid: (Some i)
    obtain p w1 where load: "loadGraph J w = (p, w1)" by (cases "loadGraph J w")
    then have pr: "promise w1 = Some p" by (rule loadGraph_promise)
    show ?thesis
    proof (cases p)
      case (Resolved g)
      with load have load': "loadGraph J w = (Resolved g, w1)" by simp
      have asc: "ascending g" using inv load' by (rule loadGraph_ascending)
      have safe: "safe_ids g" using inv load' by (rule loadGraph_safe)
      show ?thesis
      proof (cases "map_of g t")
        case None
        have "promise (snd (delete_store J r w)) = Some (Resolved g)"
        proof (cases "t \<in> set Object_prototype_names")
          case True
          have "snd (delete_store J r w) = snd (persistGraph J g w1)"
            by (cases "persistGraph J g w1" rule: prod.exhaust [case_names Pair],
                cases "fst (persistGraph J g w1)")
              (simp_all add: delete_store_def Some rid load' None True)
          then show ?thesis
            using pr Resolved by (simp add: persistGraph_promise)
        next
          case False
          with load' pr Some rid None Resolved show ?thesis
            by (simp add: delete_store_def)
        qed
        with asc safe show ?thesis by (simp add: world_ascending_def)
      next
        case part: (Some part)
        have "ascending (AList.update t (AList.delete i part) g)"
          using asc part by (simp add: ascending_update sorted_delete_partition ascending_lookup)
        moreover have "safe_ids (AList.update t (AList.delete i part) g)"
        proof (rule safe_update [OF safe])
          fix k assume "k \<in> fst ` set (AList.delete i part)"
          then have "k \<in> fst ` set part"
            using dom_delete_subset [of i part] by blast
          with safe part show "k \<le> 2 ^ 53" by (rule safe_lookup)
        qed
        moreover have "promise (snd (delete_store J r w))
            = Some (Resolved (AList.update t (AList.delete i part) g))"
          using delete_loaded [OF load' Some rid part] by (cases "write_fault w1") simp_all
        ultimately show ?thesis by (simp add: world_ascending_def)
      qed
    next
      case (Rejected e)
      with load pr Some rid show ?thesis by (simp add: delete_store_def world_ascending_def)
    next
      case Unsettled
      with load pr Some rid show ?thesis by (simp add: delete_store_def world_ascending_def)
    qed
  qed
qed

lemma find_world: "snd (find_store J t i w) = snd (loadGraph J w)"
  by (simp add: find_store_def split: prod.splits promise.splits option.splits)

lemma loadGraph_world_ascending:
  assumes "world_ascending J w"
  shows "world_ascending J (snd (loadGraph J w))"
proof -
  obtain p w1 where load: "loadGraph J w = (p, w1)" by (cases "loadGraph J w")
  then have pr: "promise w1 = Some p" by (rule loadGraph_promise)
  show ?thesis
  proof (cases p)
    case (Resolved g)
    with load assms have "ascending g" "safe_ids g"
      by (simp_all add: loadGraph_ascending loadGraph_safe)
    with load pr Resolved show ?thesis by (simp add: world_ascending_def)
  qed (use load pr in \<open>simp_all add: world_ascending_def\<close>)
qed

lemma find_ascending: "world_ascending J w \<Longrightarrow> world_ascending J (snd (find_store J t i w))"
  by (simp add: find_world loadGraph_world_ascending)

lemma first_run_ascending: "world_ascending J first_run"
  by (simp add: world_ascending_def first_run_def)

lemma calls_ascending:
  "world_ascending J w \<Longrightarrow> world_ascending J (foldl (perform J) w cs)"
proof (induction cs arbitrary: w)
  case Nil
  then show ?case by simp
next
  case (Cons c cs)
  have "world_ascending J (perform J w c)"
    using Cons.prems by (cases c) (simp_all add: find_ascending save_ascending delete_ascending)
  then show ?case by (simp add: Cons.IH)
qed

lemma calls_ascending_graph:
  assumes "world_ascending J w" and "promise (foldl (perform J) w cs) = Some (Resolved g)"
  shows "ascending g"
  using calls_ascending [OF assms(1), of cs] assms(2) by (simp add: world_ascending_def)

subsection \<open>C7: \<^verbatim>\<open>find\<close> without an id lists the partition\<close>





subsection \<open>C5: the first load\<close>






subsection \<open>C6: what \<^verbatim>\<open>find\<close> rejects\<close>

text \<open>
  C6 says that \<^verbatim>\<open>find\<close> is rejected with the unrecognized-type error exactly when the
  type has no partition in the loaded graph. The code tests \<^verbatim>\<open>graph[type] === undefined\<close>
  (line 140), and this test also sees what the graph inherits from \<^verbatim>\<open>Object.prototype\<close>:
  for \<^verbatim>\<open>constructor\<close>, \<^verbatim>\<open>toString\<close> and the other names of \<open>Object_prototype_names\<close> the
  test fails although the graph has no such partition, and \<^verbatim>\<open>find\<close> resolves: on the
  first run \<^verbatim>\<open>find('constructor')\<close> gives the empty list and \<^verbatim>\<open>find('constructor', 1)\<close>
  gives \<^verbatim>\<open>undefined\<close>. The comments of the code (lines 127 to 129, and 139) say that
  \<^verbatim>\<open>find\<close> is rejected for a type that does not exist in the graph. The theorem states
  what the code does: \<^verbatim>\<open>find\<close> is rejected with the unrecognized-type error exactly when
  the load gave a graph, the type has no partition in it and the type is none of the
  inherited names; for an inherited name without partition it resolves. The other half
  of C6 holds: when the type has a partition and the id given is not a key of it,
  \<^verbatim>\<open>find\<close> resolves with \<^verbatim>\<open>undefined\<close>.
\<close>

theorem find_resolves_for_inherited_names:
  "(fst (find_store J t i w) = Rejected UnrecognizedType)
     = (\<exists>g. fst (loadGraph J w) = Resolved g \<and> map_of g t = None
          \<and> t \<notin> set Object_prototype_names)
   \<and> (fst (loadGraph J w) = Resolved g \<and> map_of g t = None
        \<and> t \<in> set Object_prototype_names \<longrightarrow>
        (\<exists>x. fst (find_store J t i w) = Resolved x))
   \<and> (fst (loadGraph J w) = Resolved g \<and> map_of g t = Some part \<and> map_of part k = None \<longrightarrow>
        fst (find_store J t (Some k) w) = Resolved (One None))"
proof -
  obtain p w1 where load: "loadGraph J w = (p, w1)" by (cases "loadGraph J w")
  have "(fst (find_store J t i w) = Rejected UnrecognizedType)
     = (\<exists>g. fst (loadGraph J w) = Resolved g \<and> map_of g t = None
          \<and> t \<notin> set Object_prototype_names)"
    by (cases p) (auto simp: find_store_def load split: option.splits)
  moreover have "\<exists>x. fst (find_store J t i w) = Resolved x"
    if "fst (loadGraph J w) = Resolved g" "map_of g t = None" "t \<in> set Object_prototype_names"
    using that by (simp add: find_store_def load split: option.splits)
  moreover have "fst (find_store J t (Some k) w) = Resolved (One None)"
    if "fst (loadGraph J w) = Resolved g" "map_of g t = Some part" "map_of part k = None"
    using that by (simp add: find_store_def load)
  ultimately show ?thesis by blast
qed

theorem find_resolves_for_inherited_names_witness:
  "fst (loadGraph json_exact (first_run :: (string graph, string) world)) = Resolved []
   \<and> map_of ([] :: string graph) ''constructor'' = None
   \<and> ''constructor'' \<in> set Object_prototype_names
   \<and> fst (find_store json_exact ''constructor'' None (first_run :: (string graph, string) world))
       = Resolved (Many [])
   \<and> fst (find_store json_exact ''constructor'' (Some 1) (first_run :: (string graph, string) world))
       = Resolved (One None)
   \<and> fst (find_store json_exact ''constructor'' None (first_run :: (string graph, string) world))
       \<noteq> Rejected UnrecognizedType
   \<and> fst (find_store json_exact ''notes'' None (loaded [(''tasks'', [(1, stored 1 ''A'')])]))
       = Rejected UnrecognizedType
   \<and> map_of [(''tasks'', [(1, stored 1 ''A'')])] ''notes'' = None
   \<and> ''notes'' \<notin> set Object_prototype_names
   \<and> fst (loadGraph json_exact (loaded [(''tasks'', [(1, stored 1 ''A'')])]))
       = Resolved [(''tasks'', [(1, stored 1 ''A'')])]
   \<and> map_of [(''tasks'', [(1, stored 1 ''A'')])] ''tasks'' = Some [(1, stored 1 ''A'')]
   \<and> map_of [(1 :: nat, stored 1 ''A'')] 7 = None
   \<and> fst (find_store json_exact ''tasks'' (Some 7) (loaded [(''tasks'', [(1, stored 1 ''A'')])]))
       = Resolved (One None)"
proof -
  let ?g = "[(''tasks'', [(1 :: nat, stored 1 ''A'')])]"
  have names: "''constructor'' \<in> set Object_prototype_names"
      "''notes'' \<notin> set Object_prototype_names"
    by (simp_all add: Object_prototype_names_def)
  have first: "fst (loadGraph json_exact (first_run :: (string graph, string) world)) = Resolved []"
    by (simp add: first_run_load)
  note a = find_resolves_for_inherited_names
      [where J = json_exact and w = "first_run :: (string graph, string) world"
        and t = "''constructor''" and i = None and g = "[]" and k = 1 and part = "[]"]
  note b = find_resolves_for_inherited_names
      [where J = json_exact and w = "loaded ?g" and t = "''notes''" and i = None and g = ?g
        and k = 1 and part = "[]"]
  note c = find_resolves_for_inherited_names
      [where J = json_exact and w = "loaded ?g" and t = "''tasks''" and i = "Some 7" and g = ?g
        and k = 7 and part = "[(1, stored 1 ''A'')]"]
  have a': "fst (find_store json_exact ''constructor'' None (first_run :: (string graph, string) world))
       = Resolved (Many [])"
    "fst (find_store json_exact ''constructor'' (Some 1) (first_run :: (string graph, string) world))
       = Resolved (One None)"
    by (simp_all add: find_store_def first_run_load Object_prototype_names_def)
  have a'': "fst (find_store json_exact ''constructor'' None (first_run :: (string graph, string) world))
       \<noteq> Rejected UnrecognizedType"
    using a names first by simp
  have b': "fst (find_store json_exact ''notes'' None (loaded ?g)) = Rejected UnrecognizedType"
    using b names by (simp add: loaded_load)
  have c': "fst (find_store json_exact ''tasks'' (Some 7) (loaded ?g)) = Resolved (One None)"
    using c by (simp add: loaded_load)
  show ?thesis
    using a' a'' b' c' names first by (simp add: loaded_load)
qed

subsection \<open>C8: resources without a type\<close>

text \<open>
  C8: \<^verbatim>\<open>save\<close> and \<^verbatim>\<open>delete\<close> are rejected with the missing-type error exactly when the
  resource has no type, and then the world is as before: the graph in memory and the
  file are untouched, nothing is read or written, and the resource is not changed.
\<close>

theorem missing_type_rejected_without_effect:
  "((fst (save J r w) = Rejected MissingType) = (res_type r = None))
   \<and> ((fst (delete_store J r w) = Rejected MissingType) = (res_type r = None))
   \<and> (res_type r = None \<longrightarrow>
        save J r w = (Rejected MissingType, r, w) \<and> delete_store J r w = (Rejected MissingType, w))"
proof -
  obtain p w1 where load: "loadGraph J w = (p, w1)" by (cases "loadGraph J w")
  have s: "fst (save J r w) \<noteq> Rejected MissingType" if t: "res_type r = Some t" for t
  proof (cases p)
    case (Resolved g)
    with load have "loadGraph J w = (Resolved g, w1)" by simp
    from this t obtain g2 k where "save J r w =
       (case write_fault w1 of
          None \<Rightarrow> (Resolved g2, r\<lparr>res_id := Some k\<rparr>,
                    w1\<lparr>promise := Some (Resolved g2), writes := writes w1 + 1,
                        content := Some (stringify J g2)\<rparr>)
        | Some e \<Rightarrow> (Rejected (IOFailure e), r\<lparr>res_id := Some k\<rparr>,
                    w1\<lparr>promise := Some (Resolved g2), writes := writes w1 + 1\<rparr>))"
      by (rule save_shape)
    then show ?thesis
      by (cases "write_fault w1") simp_all
  qed (use load t in \<open>simp_all add: save_def\<close>)
  have d: "fst (delete_store J r w) \<noteq> Rejected MissingType" if t: "res_type r = Some t" for t
    using t load
    by (cases p)
      (auto simp: delete_store_def persistGraph_def fs_writeFile_def Let_def split: option.splits)
  have n: "save J r w = (Rejected MissingType, r, w) \<and> delete_store J r w = (Rejected MissingType, w)"
    if "res_type r = None"
    using that by (simp add: save_def delete_store_def)
  from s d n show ?thesis
    by (cases "res_type r") auto
qed

theorem missing_type_rejected_without_effect_witness:
  "res_type \<lparr>res_type = None, res_id = Some 1, res_data = ''A''\<rparr> = None
   \<and> save json_exact \<lparr>res_type = None, res_id = Some 1, res_data = ''A''\<rparr>
        (loaded [(''tasks'', [(1, stored 1 ''A'')])])
       = (Rejected MissingType, \<lparr>res_type = None, res_id = Some 1, res_data = ''A''\<rparr>,
          loaded [(''tasks'', [(1, stored 1 ''A'')])])
   \<and> delete_store json_exact \<lparr>res_type = None, res_id = Some 1, res_data = ''A''\<rparr>
        (loaded [(''tasks'', [(1, stored 1 ''A'')])])
       = (Rejected MissingType, loaded [(''tasks'', [(1, stored 1 ''A'')])])
   \<and> fst (save json_exact (stored 1 ''A'') (loaded [(''tasks'', [(1, stored 1 ''A'')])]))
       \<noteq> Rejected MissingType"
  using missing_type_rejected_without_effect
      [where J = json_exact and w = "loaded [(''tasks'', [(1, stored 1 ''A'')])]"
        and r = "\<lparr>res_type = None, res_id = Some 1, res_data = ''A''\<rparr>"]
    missing_type_rejected_without_effect
      [where J = json_exact and w = "loaded [(''tasks'', [(1, stored 1 ''A'')])]"
        and r = "stored 1 ''A''"]
  by (simp add: stored_def)

subsection \<open>C9: \<^verbatim>\<open>delete\<close> with nothing to delete\<close>

text \<open>
  C9 says that \<^verbatim>\<open>delete\<close> of a resource whose type has no partition in the graph
  resolves with no value, leaves the graph unchanged and writes no file. On the first
  run this is not so: \<^verbatim>\<open>delete\<close> of a resource with a type and an id asks for the graph
  (line 232) before it looks for the partition, the load finds no file and creates it,
  so the file is written once although \<^verbatim>\<open>delete\<close> resolves with no value. And under a
  type that is a name inherited from \<^verbatim>\<open>Object.prototype\<close> the test of line 235 does not
  stop \<^verbatim>\<open>delete\<close> even when the graph is in memory: lines 238 to 241 persist the graph
  and resolve with it.
\<close>

theorem delete_may_write_the_file:
  "res_type memo = Some ''notes'' \<and> res_id memo = Some 1
   \<and> fst (loadGraph json_exact (first_run :: (string graph, string) world)) = Resolved []
   \<and> map_of ([] :: string graph) ''notes'' = None
   \<and> fst (delete_store json_exact memo first_run) = Resolved None
   \<and> content (first_run :: (string graph, string) world) = None
   \<and> writes (first_run :: (string graph, string) world) = 0
   \<and> content (snd (delete_store json_exact memo first_run)) = Some (stringify json_exact [])
   \<and> writes (snd (delete_store json_exact memo first_run)) = 1
   \<and> map_of [(''tasks'', [(1, stored 1 ''A'')])] ''constructor'' = None
   \<and> fst (delete_store json_exact
         \<lparr>res_type = Some ''constructor'', res_id = Some 1, res_data = ''N''\<rparr>
         (loaded [(''tasks'', [(1, stored 1 ''A'')])]))
       = Resolved (Some [(''tasks'', [(1, stored 1 ''A'')])])
   \<and> writes (loaded [(''tasks'', [(1, stored 1 ''A'')])]) = 1
   \<and> writes (snd (delete_store json_exact
         \<lparr>res_type = Some ''constructor'', res_id = Some 1, res_data = ''N''\<rparr>
         (loaded [(''tasks'', [(1, stored 1 ''A'')])]))) = 2"
proof -
  have "delete_store json_exact memo (first_run :: (string graph, string) world)
      = (Resolved None, snd (loadGraph json_exact first_run))"
    by (simp add: delete_store_def memo_def first_run_load Object_prototype_names_def)
  moreover have "snd (loadGraph json_exact (first_run :: (string graph, string) world))
      = \<lparr>content = Some [], read_fault = None, write_fault = None,
         promise = Some (Resolved []), reads = 1, writes = 1\<rparr>"
    by (simp add: first_run_load)
  moreover have "delete_store json_exact
         \<lparr>res_type = Some ''constructor'', res_id = Some 1, res_data = ''N''\<rparr>
         (loaded [(''tasks'', [(1, stored 1 ''A'')])])
       = (Resolved (Some [(''tasks'', [(1, stored 1 ''A'')])]),
          (loaded [(''tasks'', [(1, stored 1 ''A'')])])\<lparr>writes := 2\<rparr>)"
    by (simp add: delete_store_def loaded_load Object_prototype_names_def persistGraph_def
        fs_writeFile_def Let_def)
      (simp add: loaded_def json_exact_def)
  ultimately show ?thesis
    by (simp add: memo_def first_run_load) (simp add: json_exact_def first_run_def loaded_def)
qed

text \<open>
  C9, amended: \<^verbatim>\<open>delete\<close> of a resource that has a type but no id resolves with no value
  and leaves the world as it is, in every state. \<^verbatim>\<open>delete\<close> of a resource whose type is
  no name inherited from \<^verbatim>\<open>Object.prototype\<close> and has no partition in the graph in
  memory does the same: the graph is unchanged and nothing is written. When the graph
  is not in memory yet, such a \<^verbatim>\<open>delete\<close> resolves with no value and leaves the world as
  the load alone leaves it (the load may create the file).
\<close>

theorem delete_without_id_or_partition_is_noop:
  "(res_type r = Some t \<and> res_id r = None \<longrightarrow> delete_store J r w = (Resolved None, w))
   \<and> (res_type r = Some t \<and> t \<notin> set Object_prototype_names
        \<and> promise w = Some (Resolved g) \<and> map_of g t = None \<longrightarrow>
        delete_store J r w = (Resolved None, w))
   \<and> (res_type r = Some t \<and> t \<notin> set Object_prototype_names \<and> res_id r = Some i
        \<and> loadGraph J w = (Resolved g, w1) \<and> map_of g t = None \<longrightarrow>
        delete_store J r w = (Resolved None, w1))"
  by (auto simp: delete_store_def loadGraph_cached split: option.splits)

theorem delete_without_id_or_partition_is_noop_witness:
  "res_type (task ''A'') = Some ''tasks'' \<and> res_id (task ''A'') = None
   \<and> delete_store json_exact (task ''A'') (loaded [(''tasks'', [(1, stored 1 ''A'')])])
       = (Resolved None, loaded [(''tasks'', [(1, stored 1 ''A'')])])
   \<and> res_type memo = Some ''notes'' \<and> res_id memo = Some 1
   \<and> ''notes'' \<notin> set Object_prototype_names
   \<and> promise (loaded [(''tasks'', [(1, stored 1 ''A'')])])
       = Some (Resolved [(''tasks'', [(1, stored 1 ''A'')])])
   \<and> map_of [(''tasks'', [(1, stored 1 ''A'')])] ''notes'' = None
   \<and> delete_store json_exact memo (loaded [(''tasks'', [(1, stored 1 ''A'')])])
       = (Resolved None, loaded [(''tasks'', [(1, stored 1 ''A'')])])
   \<and> loadGraph json_exact (first_run :: (string graph, string) world)
       = (Resolved [], snd (loadGraph json_exact first_run))
   \<and> map_of ([] :: string graph) ''notes'' = None
   \<and> delete_store json_exact memo (first_run :: (string graph, string) world)
       = (Resolved None, snd (loadGraph json_exact first_run))"
proof -
  let ?g = "[(''tasks'', [(1 :: nat, stored 1 ''A'')])]"
  have names: "''notes'' \<notin> set Object_prototype_names"
    by (simp add: Object_prototype_names_def)
  have first: "loadGraph json_exact (first_run :: (string graph, string) world)
       = (Resolved [], snd (loadGraph json_exact first_run))"
    by (simp add: first_run_load)
  have a: "delete_store json_exact (task ''A'') (loaded ?g) = (Resolved None, loaded ?g)"
    using delete_without_id_or_partition_is_noop
      [where J = json_exact and w = "loaded ?g" and r = "task ''A''" and t = "''tasks''"]
    by (simp add: task_def)
  have b: "delete_store json_exact memo (loaded ?g) = (Resolved None, loaded ?g)"
    using delete_without_id_or_partition_is_noop
      [where J = json_exact and w = "loaded ?g" and r = memo and t = "''notes''" and g = ?g]
      names
    by (simp add: memo_def loaded_def)
  have c: "delete_store json_exact memo (first_run :: (string graph, string) world)
       = (Resolved None, snd (loadGraph json_exact first_run))"
    using delete_without_id_or_partition_is_noop
      [where J = json_exact and w = "first_run :: (string graph, string) world" and r = memo
        and t = "''notes''" and g = "[]" and i = 1 and ?w1.0 = "snd (loadGraph json_exact first_run)"]
      names first
    by (simp add: memo_def)
  show ?thesis
    using a b c names first by (simp add: task_def memo_def loaded_def)
qed

subsection \<open>C10: the file and the graph in memory\<close>

lemma first_save_world:
  "save json_exact (task ''A'') first_run =
     (Resolved [(''tasks'', [(1, stored 1 ''A'')])], stored 1 ''A'',
      \<lparr>content = Some [(''tasks'', [(1, stored 1 ''A'')])],
       read_fault = None, write_fault = None,
       promise = Some (Resolved [(''tasks'', [(1, stored 1 ''A'')])]),
       reads = 1, writes = 2\<rparr>)"
  using save_loaded [OF first_run_load, where r = "task ''A''" and t = "''tasks''"]
  by (simp add: task_def stored_def empty_new_id json_exact_def tasks_own)

lemma after_refused_write_eq:
  "after_refused_write =
     \<lparr>content = Some [(''tasks'', [(1, stored 1 ''A'')])],
      read_fault = None, write_fault = Some (FsError ''EACCES''),
      promise = Some (Resolved [(''tasks'', [(1, stored 1 ''A''), (2, stored 2 ''B'')])]),
      reads = 1, writes = 3\<rparr>"
proof -
  let ?g = "[(''tasks'', [(1, stored 1 ''A'')])]"
  let ?w = "\<lparr>content = Some ?g, read_fault = None, write_fault = Some (FsError ''EACCES''),
      promise = Some (Resolved ?g), reads = 1, writes = 2 :: nat\<rparr>"
  have load: "loadGraph json_exact ?w = (Resolved ?g, ?w)"
    by (simp add: loadGraph_cached)
  have "snd (snd (save json_exact (task ''B'') ?w)) =
     \<lparr>content = Some ?g, read_fault = None, write_fault = Some (FsError ''EACCES''),
      promise = Some (Resolved [(''tasks'', [(1, stored 1 ''A''), (2, stored 2 ''B'')])]),
      reads = 1, writes = 3\<rparr>"
    using save_loaded [OF load, where r = "task ''B''" and t = "''tasks''"]
    by (simp add: task_def stored_def single_new_id tasks_own)
  then show ?thesis
    by (simp add: after_refused_write_def first_save_world)
qed

text \<open>
  C10 says that after every successful \<^verbatim>\<open>save\<close> or \<^verbatim>\<open>delete\<close> the file holds the
  serialisation of the graph in memory. A \<^verbatim>\<open>delete\<close> that stops early succeeds without
  writing, so it leaves a file that has fallen behind as it is: after the refused
  write above, deleting a resource of a type without partition resolves, the graph in
  memory holds the tasks A and B, and the file holds A alone.
\<close>

theorem delete_noop_leaves_stale_file:
  "fst (delete_store json_exact memo after_refused_write) = Resolved None
   \<and> promise (snd (delete_store json_exact memo after_refused_write))
       = Some (Resolved [(''tasks'', [(1, stored 1 ''A''), (2, stored 2 ''B'')])])
   \<and> content (snd (delete_store json_exact memo after_refused_write))
       \<noteq> Some (stringify json_exact [(''tasks'', [(1, stored 1 ''A''), (2, stored 2 ''B'')])])"
  by (simp add: after_refused_write_eq delete_store_def loadGraph_cached memo_def json_exact_def
      Object_prototype_names_def)

lemma reload:
  assumes "content w = Some c" and "read_fault w = None" and "parse J c = Some g"
  shows "fst (loadGraph J (w\<lparr>promise := None\<rparr>)) = Resolved g"
  using assms by (simp add: loadGraph_def loadDB_def fs_readFile_def Let_def)

lemma save_resolved:
  assumes "fst (save J r w) = Resolved g'"
  shows "promise (snd (snd (save J r w))) = Some (Resolved g')
         \<and> content (snd (snd (save J r w))) = Some (stringify J g')
         \<and> read_fault (snd (snd (save J r w))) = read_fault (snd (loadGraph J w))"
proof (cases "res_type r")
  case None
  with assms show ?thesis by (simp add: save_def)
next
  case (Some t)
  obtain p w1 where load: "loadGraph J w = (p, w1)" by (cases "loadGraph J w")
  show ?thesis
  proof (cases p)
    case (Resolved g0)
    with load have load': "loadGraph J w = (Resolved g0, w1)" by simp
    from load' Some obtain g2 k where "save J r w =
       (case write_fault w1 of
          None \<Rightarrow> (Resolved g2, r\<lparr>res_id := Some k\<rparr>,
                    w1\<lparr>promise := Some (Resolved g2), writes := writes w1 + 1,
                        content := Some (stringify J g2)\<rparr>)
        | Some e \<Rightarrow> (Rejected (IOFailure e), r\<lparr>res_id := Some k\<rparr>,
                    w1\<lparr>promise := Some (Resolved g2), writes := writes w1 + 1\<rparr>))"
      by (rule save_shape)
    with assms show ?thesis
      by (cases "write_fault w1") (auto simp: load')
  qed (use load Some assms in \<open>simp_all add: save_def\<close>)
qed

lemma delete_resolved:
  assumes "fst (delete_store J r w) = Resolved (Some g')"
  shows "promise (snd (delete_store J r w)) = Some (Resolved g')
         \<and> content (snd (delete_store J r w)) = Some (stringify J g')
         \<and> read_fault (snd (delete_store J r w)) = read_fault (snd (loadGraph J w))"
proof -
  obtain p w1 where load: "loadGraph J w = (p, w1)" by (cases "loadGraph J w")
  from assms obtain t i where ty: "res_type r = Some t" and rid: "res_id r = Some i"
    by (auto simp: delete_store_def split: option.splits)
  show ?thesis
  proof (cases p)
    case (Resolved g)
    with load have load': "loadGraph J w = (Resolved g, w1)" by simp
    have p1: "promise w1 = Some (Resolved g)"
      using load' by (rule loadGraph_promise)
    show ?thesis
    proof (cases "map_of g t")
      case None
      with assms have name: "t \<in> set Object_prototype_names"
        by (cases "t \<in> set Object_prototype_names") (simp_all add: delete_store_def ty rid load')
      from delete_inherited [OF load' ty rid None name] assms p1 show ?thesis
        by (cases "write_fault w1") (auto simp: load')
    next
      case (Some part)
      from delete_loaded [OF load' ty rid Some] assms show ?thesis
        by (cases "write_fault w1") (auto simp: load')
    qed
  qed (use load ty rid assms in \<open>simp_all add: delete_store_def\<close>)
qed

lemma delete_unresolved_world:
  assumes "fst (delete_store J r w) = Resolved None"
  shows "snd (delete_store J r w) = w \<or> snd (delete_store J r w) = snd (loadGraph J w)"
  using assms
  by (auto simp: delete_store_def persistGraph_def fs_writeFile_def Let_def
      split: option.splits promise.splits prod.splits)

text \<open>
  C10, amended: after every \<^verbatim>\<open>save\<close> that resolves, and after every \<^verbatim>\<open>delete\<close> that
  resolves with the graph (the resource has an id and \<^verbatim>\<open>delete\<close> goes on to persist), the graph
  in memory is the one resolved with and the file holds its serialisation; so, where
  parsing gives that graph back from its serialisation and the disk can be read, a
  load with a fresh cache gives the same graph. A \<^verbatim>\<open>delete\<close> that resolves with no
  value leaves the world as it was, or as the load it started left it.
\<close>

theorem persisted_file_mirrors_graph:
  "(fst (save J r w) = Resolved g' \<longrightarrow>
      promise (snd (snd (save J r w))) = Some (Resolved g')
      \<and> content (snd (snd (save J r w))) = Some (stringify J g')
      \<and> (parse J (stringify J g') = Some g' \<and> read_fault (snd (snd (save J r w))) = None \<longrightarrow>
           fst (loadGraph J ((snd (snd (save J r w)))\<lparr>promise := None\<rparr>)) = Resolved g'))
   \<and> (fst (delete_store J r w) = Resolved (Some g') \<longrightarrow>
      promise (snd (delete_store J r w)) = Some (Resolved g')
      \<and> content (snd (delete_store J r w)) = Some (stringify J g')
      \<and> (parse J (stringify J g') = Some g' \<and> read_fault (snd (delete_store J r w)) = None \<longrightarrow>
           fst (loadGraph J ((snd (delete_store J r w))\<lparr>promise := None\<rparr>)) = Resolved g'))
   \<and> (fst (delete_store J r w) = Resolved None \<longrightarrow>
      snd (delete_store J r w) = w \<or> snd (delete_store J r w) = snd (loadGraph J w))"
proof (intro conjI impI; (elim conjE)?)
  assume a: "fst (save J r w) = Resolved g'"
  note s = save_resolved [OF a]
  show "promise (snd (snd (save J r w))) = Some (Resolved g')" using s by simp
  show c: "content (snd (snd (save J r w))) = Some (stringify J g')" using s by simp
  assume "parse J (stringify J g') = Some g'" "read_fault (snd (snd (save J r w))) = None"
  with c show "fst (loadGraph J ((snd (snd (save J r w)))\<lparr>promise := None\<rparr>)) = Resolved g'"
    by (simp add: reload)
next
  assume a: "fst (delete_store J r w) = Resolved (Some g')"
  note d = delete_resolved [OF a]
  show "promise (snd (delete_store J r w)) = Some (Resolved g')" using d by simp
  show c: "content (snd (delete_store J r w)) = Some (stringify J g')" using d by simp
  assume "parse J (stringify J g') = Some g'" "read_fault (snd (delete_store J r w)) = None"
  with c show "fst (loadGraph J ((snd (delete_store J r w))\<lparr>promise := None\<rparr>)) = Resolved g'"
    by (simp add: reload)
next
  assume "fst (delete_store J r w) = Resolved None"
  then show "snd (delete_store J r w) = w \<or> snd (delete_store J r w) = snd (loadGraph J w)"
    by (rule delete_unresolved_world)
qed

lemma save_second_task:
  "save json_exact (task ''B'') (loaded [(''tasks'', [(1, stored 1 ''A'')])]) =
     (Resolved [(''tasks'', [(1, stored 1 ''A''), (2, stored 2 ''B'')])], stored 2 ''B'',
      \<lparr>content = Some [(''tasks'', [(1, stored 1 ''A''), (2, stored 2 ''B'')])],
       read_fault = None, write_fault = None,
       promise = Some (Resolved [(''tasks'', [(1, stored 1 ''A''), (2, stored 2 ''B'')])]),
       reads = 1, writes = 2\<rparr>)"
  using save_loaded [OF loaded_load, where r = "task ''B''" and t = "''tasks''"
      and ?g0.0 = "[(''tasks'', [(1, stored 1 ''A'')])]"]
  by (simp add: task_def stored_def single_new_id json_exact_def loaded_def tasks_own)

lemma delete_first_task:
  "delete_store json_exact (stored 1 ''A'') (loaded [(''tasks'', [(1, stored 1 ''A'')])]) =
     (Resolved (Some [(''tasks'', [])]),
      \<lparr>content = Some [(''tasks'', [])], read_fault = None, write_fault = None,
       promise = Some (Resolved [(''tasks'', [])]), reads = 1, writes = 2\<rparr>)"
  using delete_loaded [OF loaded_load, where r = "stored 1 ''A''" and t = "''tasks''" and i = 1
      and g = "[(''tasks'', [(1, stored 1 ''A'')])]" and part = "[(1, stored 1 ''A'')]"]
  by (simp add: stored_def json_exact_def loaded_def)

theorem persisted_file_mirrors_graph_witness:
  "fst (save json_exact (task ''B'') (loaded [(''tasks'', [(1, stored 1 ''A'')])]))
     = Resolved [(''tasks'', [(1, stored 1 ''A''), (2, stored 2 ''B'')])]
   \<and> parse json_exact (stringify json_exact [(''tasks'', [(1, stored 1 ''A''), (2, stored 2 ''B'')])])
       = Some [(''tasks'', [(1, stored 1 ''A''), (2, stored 2 ''B'')])]
   \<and> read_fault (snd (snd (save json_exact (task ''B'') (loaded [(''tasks'', [(1, stored 1 ''A'')])]))))
       = None
   \<and> content (snd (snd (save json_exact (task ''B'') (loaded [(''tasks'', [(1, stored 1 ''A'')])]))))
       = Some (stringify json_exact [(''tasks'', [(1, stored 1 ''A''), (2, stored 2 ''B'')])])
   \<and> fst (loadGraph json_exact
        ((snd (snd (save json_exact (task ''B'') (loaded [(''tasks'', [(1, stored 1 ''A'')])]))))
           \<lparr>promise := None\<rparr>))
       = Resolved [(''tasks'', [(1, stored 1 ''A''), (2, stored 2 ''B'')])]
   \<and> fst (delete_store json_exact (stored 1 ''A'') (loaded [(''tasks'', [(1, stored 1 ''A'')])]))
       = Resolved (Some [(''tasks'', [])])
   \<and> content (snd (delete_store json_exact (stored 1 ''A'') (loaded [(''tasks'', [(1, stored 1 ''A'')])])))
       = Some (stringify json_exact [(''tasks'', [])])
   \<and> fst (delete_store json_exact (task ''A'') (loaded [(''tasks'', [(1, stored 1 ''A'')])]))
       = Resolved None
   \<and> snd (delete_store json_exact (task ''A'') (loaded [(''tasks'', [(1, stored 1 ''A'')])]))
       = loaded [(''tasks'', [(1, stored 1 ''A'')])]"
proof -
  let ?w = "loaded [(''tasks'', [(1, stored 1 ''A'')])]"
  let ?g = "[(''tasks'', [(1, stored 1 ''A''), (2, stored 2 ''B'')])]"
  have s: "fst (save json_exact (task ''B'') ?w) = Resolved ?g"
    unfolding save_second_task by simp
  have rt: "parse json_exact (stringify json_exact ?g) = Some ?g"
    by (simp add: json_exact_def)
  have rf: "read_fault (snd (snd (save json_exact (task ''B'') ?w))) = None"
    unfolding save_second_task by simp
  have d: "fst (delete_store json_exact (stored 1 ''A'') ?w) = Resolved (Some [(''tasks'', [])])"
    unfolding delete_first_task by simp
  have n: "fst (delete_store json_exact (task ''A'') ?w) = Resolved None"
    by (simp add: delete_store_def task_def)
  have n': "snd (delete_store json_exact (task ''A'') ?w) = ?w"
    by (simp add: delete_store_def task_def)
  from persisted_file_mirrors_graph
      [where J = json_exact and r = "task ''B''" and w = ?w and g' = ?g] s rt rf
  have 1: "content (snd (snd (save json_exact (task ''B'') ?w))) = Some (stringify json_exact ?g)"
    and 2: "fst (loadGraph json_exact ((snd (snd (save json_exact (task ''B'') ?w)))\<lparr>promise := None\<rparr>))
       = Resolved ?g"
    by blast+
  from persisted_file_mirrors_graph
      [where J = json_exact and r = "stored 1 ''A''" and w = ?w and g' = "[(''tasks'', [])]"] d
  have 3: "content (snd (delete_store json_exact (stored 1 ''A'') ?w))
       = Some (stringify json_exact [(''tasks'', [])])"
    by blast
  from s rt rf 1 2 d 3 n n' show ?thesis by blast
qed

subsection \<open>C4: the file is read at most once\<close>

lemma loadGraph_reads:
  "reads (snd (loadGraph J w)) = (if promise w = None then reads w + 1 else reads w)"
  by (auto simp: loadGraph_def loadDB_def fs_readFile_def persistGraph_def fs_writeFile_def Let_def
      split: option.splits promise.splits prod.splits sum.splits if_splits)

lemma loadGraph_promise_set: "promise (snd (loadGraph J w)) \<noteq> None"
  using loadGraph_promise [of J w] by (cases "loadGraph J w") simp

lemma find_reads:
  "reads (snd (find_store J t i w)) = (if promise w = None then reads w + 1 else reads w)"
  "promise (snd (find_store J t i w)) \<noteq> None"
  by (simp_all add: find_world loadGraph_reads loadGraph_promise_set)

lemma save_reads:
  "reads (snd (snd (save J r w)))
     = (if promise w = None \<and> res_type r \<noteq> None then reads w + 1 else reads w)"
  "(promise (snd (snd (save J r w))) = None) = (promise w = None \<and> res_type r = None)"
proof -
  obtain p w1 where load: "loadGraph J w = (p, w1)" by (cases "loadGraph J w")
  have r1: "reads w1 = (if promise w = None then reads w + 1 else reads w)"
    using loadGraph_reads [of J w] load by simp
  have p1: "promise w1 = Some p" using load by (rule loadGraph_promise)
  have both: "reads (snd (snd (save J r w)))
     = (if promise w = None \<and> res_type r \<noteq> None then reads w + 1 else reads w)
     \<and> (promise (snd (snd (save J r w))) = None) = (promise w = None \<and> res_type r = None)"
  proof (cases "res_type r")
    case None
    then show ?thesis by (simp add: save_def)
  next
    case (Some t)
    show ?thesis
    proof (cases p)
      case (Resolved g0)
      with load have load': "loadGraph J w = (Resolved g0, w1)" by simp
      from load' Some obtain g2 k where "save J r w =
         (case write_fault w1 of
            None \<Rightarrow> (Resolved g2, r\<lparr>res_id := Some k\<rparr>,
                      w1\<lparr>promise := Some (Resolved g2), writes := writes w1 + 1,
                          content := Some (stringify J g2)\<rparr>)
          | Some e \<Rightarrow> (Rejected (IOFailure e), r\<lparr>res_id := Some k\<rparr>,
                      w1\<lparr>promise := Some (Resolved g2), writes := writes w1 + 1\<rparr>))"
        by (rule save_shape)
      with r1 show ?thesis
        by (cases "write_fault w1") (simp_all add: Some)
    qed (use load Some r1 p1 in \<open>simp_all add: save_def\<close>)
  qed
  from both show "reads (snd (snd (save J r w)))
     = (if promise w = None \<and> res_type r \<noteq> None then reads w + 1 else reads w)" by simp
  from both show "(promise (snd (snd (save J r w))) = None) = (promise w = None \<and> res_type r = None)"
    by simp
qed

lemma delete_reads:
  "reads (snd (delete_store J r w))
     = (if promise w = None \<and> res_type r \<noteq> None \<and> res_id r \<noteq> None then reads w + 1 else reads w)"
  "(promise (snd (delete_store J r w)) = None)
     = (promise w = None \<and> (res_type r = None \<or> res_id r = None))"
proof -
  obtain p w1 where load: "loadGraph J w = (p, w1)" by (cases "loadGraph J w")
  have r1: "reads w1 = (if promise w = None then reads w + 1 else reads w)"
    using loadGraph_reads [of J w] load by simp
  have p1: "promise w1 = Some p" using load by (rule loadGraph_promise)
  have both: "reads (snd (delete_store J r w))
     = (if promise w = None \<and> res_type r \<noteq> None \<and> res_id r \<noteq> None then reads w + 1 else reads w)
     \<and> (promise (snd (delete_store J r w)) = None)
     = (promise w = None \<and> (res_type r = None \<or> res_id r = None))"
    using load r1 p1
    by (cases p)
      (auto simp: delete_store_def persistGraph_def fs_writeFile_def Let_def split: option.splits)
  then show "reads (snd (delete_store J r w))
     = (if promise w = None \<and> res_type r \<noteq> None \<and> res_id r \<noteq> None then reads w + 1 else reads w)"
    by simp
  from both show "(promise (snd (delete_store J r w)) = None)
     = (promise w = None \<and> (res_type r = None \<or> res_id r = None))" by simp
qed

lemma perform_reads:
  "reads (perform J w c) = (if promise w = None \<and> requests_graph c then reads w + 1 else reads w)"
  "(promise (perform J w c) = None) = (promise w = None \<and> \<not> requests_graph c)"
  by (cases c; simp add: find_reads save_reads delete_reads)+

lemma calls_reads:
  "reads (foldl (perform J) w cs)
     = (if promise w = None \<and> (\<exists>c \<in> set cs. requests_graph c) then reads w + 1 else reads w)
   \<and> (promise (foldl (perform J) w cs) = None)
     = (promise w = None \<and> \<not> (\<exists>c \<in> set cs. requests_graph c))"
proof (induction cs arbitrary: w)
  case Nil
  show ?case by simp
next
  case (Cons c cs)
  show ?case
    using Cons.IH [of "perform J w c"] by (auto simp: perform_reads)
qed

lemma run_append: "run (es @ es') s = run es' (run es s)"
  by (simp add: run_def)

lemma run_issued:
  "issued (run es s)
     = (if cell s = None \<and> (\<exists>c. Call c \<in> set es \<and> requests_graph c) then issued s + 1 else issued s)
   \<and> (cell (run es s) = None)
     = (cell s = None \<and> \<not> (\<exists>c. Call c \<in> set es \<and> requests_graph c))"
proof (induction es arbitrary: s)
  case Nil
  show ?case by (simp add: run_def)
next
  case (Cons e es)
  have unfold: "run (e # es) s = run es (step s e)"
    by (simp add: run_def)
  show ?case
  proof (cases e)
    case (Call c)
    then show ?thesis
      using Cons.IH [of "step s e"] unfolding unfold
      by (auto simp: loadGraph_begin_def)
  next
    case (Settle p)
    then show ?thesis
      using Cons.IH [of "step s e"] unfolding unfold
      by auto
  qed
qed

lemma settled_stays:
  "cell s = Some p \<Longrightarrow> p \<noteq> Unsettled \<Longrightarrow> cell (run es s) = Some p"
proof (induction es arbitrary: s)
  case Nil
  then show ?case by (simp add: run_def)
next
  case (Cons e es)
  have "cell (step s e) = Some p"
    using Cons.prems by (cases e) (simp_all add: loadGraph_begin_def)
  then have "cell (run es (step s e)) = Some p"
    using Cons.prems(2) by (rule Cons.IH)
  then show ?case by (simp add: run_def)
qed

text \<open>
  C4 says that the first \<^verbatim>\<open>find\<close>, \<^verbatim>\<open>save\<close> or \<^verbatim>\<open>delete\<close> call triggers the one read of
  the file. A \<^verbatim>\<open>delete\<close> of a resource without id returns before it asks for the graph
  (and a \<^verbatim>\<open>save\<close> or \<^verbatim>\<open>delete\<close> without type throws before): as a first call it reads
  nothing and leaves the cache empty, and the read happens in the call after it.
\<close>

theorem first_call_may_not_read:
  "fst (delete_store json_exact (task ''A'') (first_run :: (string graph, string) world))
     = Resolved None
   \<and> reads (snd (delete_store json_exact (task ''A'') (first_run :: (string graph, string) world))) = 0
   \<and> promise (snd (delete_store json_exact (task ''A'') (first_run :: (string graph, string) world)))
       = None
   \<and> reads (snd (find_store json_exact ''tasks'' None
        (snd (delete_store json_exact (task ''A'') (first_run :: (string graph, string) world))))) = 1"
  by (simp add: delete_store_def task_def find_reads) (simp add: first_run_def)

text \<open>
  C4, amended: the file is read at most once, by the first call that asks for the
  graph (every \<^verbatim>\<open>find\<close>, a \<^verbatim>\<open>save\<close> of a resource with a type, a \<^verbatim>\<open>delete\<close> of a resource
  with a type and an id). For calls that run one after the other: from an empty cache
  the number of reads grows by one if some call asks for the graph and not at all
  otherwise, and from a filled cache it does not grow and the cache stays filled. For
  calls that overlap: however the calls and the settling of the load are interleaved,
  one read is issued if some call asks for the graph and none otherwise, so a call
  issued while the read is pending issues no read of its own; and once the load is
  settled the cache holds that outcome for good.
\<close>

theorem graph_file_read_at_most_once:
  "(promise w = None \<longrightarrow>
      reads (foldl (perform J) w cs)
        = reads w + (if \<exists>c \<in> set cs. requests_graph c then 1 else 0))
   \<and> (promise w \<noteq> None \<longrightarrow>
      reads (foldl (perform J) w cs) = reads w
      \<and> promise (foldl (perform J) w cs) \<noteq> None)
   \<and> issued (run es unloaded) = (if \<exists>c. Call c \<in> set es \<and> requests_graph c then 1 else 0)
   \<and> (cell (run es unloaded) = Some p \<and> p \<noteq> Unsettled \<longrightarrow>
      cell (run (es @ es') unloaded) = Some p
      \<and> issued (run (es @ es') unloaded) = issued (run es unloaded))"
proof (intro conjI impI; (elim conjE)?)
  assume "promise w = None"
  then show "reads (foldl (perform J) w cs)
        = reads w + (if \<exists>c \<in> set cs. requests_graph c then 1 else 0)"
    using calls_reads [of J w cs] by simp
next
  assume n: "promise w \<noteq> None"
  then show "reads (foldl (perform J) w cs) = reads w"
    using calls_reads [of J w cs] by simp
  from n show "promise (foldl (perform J) w cs) \<noteq> None"
    using calls_reads [of J w cs] by simp
next
  show "issued (run es unloaded) = (if \<exists>c. Call c \<in> set es \<and> requests_graph c then 1 else 0)"
    using run_issued [of es unloaded] by (simp add: unloaded_def)
next
  assume c: "cell (run es unloaded) = Some p" and p: "p \<noteq> Unsettled"
  then show "cell (run (es @ es') unloaded) = Some p"
    by (simp add: run_append settled_stays)
  from c show "issued (run (es @ es') unloaded) = issued (run es unloaded)"
    using run_issued [of es' "run es unloaded"] by (simp add: run_append)
qed

theorem graph_file_read_at_most_once_witness:
  "promise (first_run :: (string graph, string) world) = None
   \<and> reads (foldl (perform json_exact) (first_run :: (string graph, string) world)
        [Delete (task ''A''), Find ''tasks'' None, Save (task ''B''), Find ''tasks'' (Some 1)]) = 1
   \<and> promise (loaded [(''tasks'', [(1, stored 1 ''A'')])]) \<noteq> None
   \<and> reads (foldl (perform json_exact) (loaded [(''tasks'', [(1, stored 1 ''A'')])])
        [Find ''tasks'' None, Save (task ''B'')]) = 1
   \<and> issued (run [Call (Delete (task ''A'')), Call (Find ''tasks'' None), Call (Save (task ''B'')),
        Settle (Resolved []), Call (Find ''tasks'' None)] unloaded) = 1
   \<and> cell (run [Call (Find ''tasks'' None), Call (Save (task ''B'')), Settle (Resolved [])]
        (unloaded :: string loader)) = Some (Resolved [])
   \<and> Resolved [] \<noteq> (Unsettled :: (fs_error, string graph) promise)
   \<and> cell (run ([Call (Find ''tasks'' None), Call (Save (task ''B'')), Settle (Resolved [])]
        @ [Call (Find ''tasks'' None), Settle (Rejected (FsError ''EIO''))])
        (unloaded :: string loader)) = Some (Resolved [])"
proof -
  let ?W = "first_run :: (string graph, string) world"
  let ?es = "[Call (Find ''tasks'' None), Call (Save (task ''B'')), Settle (Resolved [])]
      :: string event list"
  have a: "promise ?W = None" "reads ?W = 0"
    by (simp_all add: first_run_def)
  have b: "promise (loaded [(''tasks'', [(1, stored 1 ''A'')])]) \<noteq> None"
    "reads (loaded [(''tasks'', [(1, stored 1 ''A'')])]) = 1"
    by (simp_all add: loaded_def)
  have c: "cell (run ?es unloaded) = Some (Resolved [])"
    by (simp add: run_def unloaded_def loadGraph_begin_def task_def)
  from graph_file_read_at_most_once
      [where J = json_exact and w = ?W
        and cs = "[Delete (task ''A''), Find ''tasks'' None, Save (task ''B''), Find ''tasks'' (Some 1)]"
        and es = "[] :: string event list" and es' = "[]" and p = Unsettled] a
  have 1: "reads (foldl (perform json_exact) ?W
        [Delete (task ''A''), Find ''tasks'' None, Save (task ''B''), Find ''tasks'' (Some 1)]) = 1"
    by simp
  let ?es5 = "[Call (Delete (task ''A'')), Call (Find ''tasks'' None), Call (Save (task ''B'')),
        Settle (Resolved []), Call (Find ''tasks'' None)] :: string event list"
  note T = graph_file_read_at_most_once
      [where J = json_exact and w = "loaded [(''tasks'', [(1, stored 1 ''A'')])]"
        and cs = "[Find ''tasks'' None, Save (task ''B'')]"
        and es = ?es5 and es' = "[]" and p = Unsettled]
  from T [THEN conjunct2, THEN conjunct1] b
  have 2: "reads (foldl (perform json_exact) (loaded [(''tasks'', [(1, stored 1 ''A'')])])
        [Find ''tasks'' None, Save (task ''B'')]) = 1"
    by simp
  have ex: "\<exists>c. Call c \<in> set ?es5 \<and> requests_graph c"
    by (rule exI [of _ "Find ''tasks'' None"]) simp
  have 3: "issued (run ?es5 unloaded) = 1"
    using T [THEN conjunct2, THEN conjunct2, THEN conjunct1] ex by (simp only: if_True)
  from graph_file_read_at_most_once
      [where J = json_exact and w = ?W and cs = "[]" and es = ?es
        and es' = "[Call (Find ''tasks'' None), Settle (Rejected (FsError ''EIO''))]"
        and p = "Resolved []"] c
  have 4: "cell (run (?es @ [Call (Find ''tasks'' None), Settle (Rejected (FsError ''EIO''))])
        unloaded) = Some (Resolved [])"
    by simp
  from a b c 1 2 3 4 show ?thesis by simp
qed

end
